theory Spec2Isabelle
  imports Complex_Main
begin

section \<open>Python values\<close>

text \<open>
  A Python \<open>str\<close> is a sequence of Unicode code points, so it is modelled as a list of
  natural numbers (\<open>len\<close> is \<open>length\<close>, slicing is \<open>take\<close>). ASCII literals of the
  source are written \<open>str ''...''\<close>; the reply templates also contain U+2019, written
  as the code point 8217.
\<close>

type_synonym pystr = "nat list"

definition str :: "string \<Rightarrow> pystr" where
  "str s = map of_char s"

text \<open>
  \<open>str.isspace\<close> of one code point, as \<open>str.split()\<close> and \<open>str.strip()\<close> use it:
  the code points CPython classifies as whitespace.
\<close>

definition isspace :: "nat \<Rightarrow> bool" where
  "isspace c \<longleftrightarrow>
     (9 \<le> c \<and> c \<le> 13) \<or> (28 \<le> c \<and> c \<le> 32) \<or> c = 133 \<or> c = 160 \<or> c = 5760 \<or>
     (8192 \<le> c \<and> c \<le> 8202) \<or> c = 8232 \<or> c = 8233 \<or> c = 8239 \<or> c = 8287 \<or> c = 12288"

text \<open>
  Lowercasing of one ASCII character (\<open>A\<close>..\<open>Z\<close> become \<open>a\<close>..\<open>z\<close>), and the
  characters of the source's own literals: ASCII and U+2019, which has no case
  mapping. \<open>str.lower()\<close> itself is defined with the environment below.
\<close>

definition lower_char :: "nat \<Rightarrow> nat" where
  "lower_char c = (if 65 \<le> c \<and> c \<le> 90 then c + 32 else c)"

definition plain :: "nat \<Rightarrow> bool" where
  "plain c \<longleftrightarrow> c < 128 \<or> c = 8217"

text \<open>
  \<open>s.rstrip()\<close> and \<open>s.strip()\<close> (whitespace), and \<open>s.lstrip(chars)\<close> and
  \<open>s.rstrip(chars)\<close> for a one-character set.
\<close>

definition rstrip :: "pystr \<Rightarrow> pystr" where
  "rstrip s = rev (dropWhile isspace (rev s))"

definition strip :: "pystr \<Rightarrow> pystr" where
  "strip s = rstrip (dropWhile isspace s)"

definition lstrip_char :: "nat \<Rightarrow> pystr \<Rightarrow> pystr" where
  "lstrip_char c s = dropWhile (\<lambda>x. x = c) s"

definition rstrip_char :: "nat \<Rightarrow> pystr \<Rightarrow> pystr" where
  "rstrip_char c s = rev (dropWhile (\<lambda>x. x = c) (rev s))"

text \<open>
  \<open>s.split()\<close> with no argument: the maximal runs of non-whitespace, in order. The
  first argument is the word being read.
\<close>

fun split_from :: "pystr \<Rightarrow> pystr \<Rightarrow> pystr list" where
  "split_from cur [] = (if cur = [] then [] else [cur])"
| "split_from cur (c # cs) =
     (if isspace c then (if cur = [] then split_from [] cs else cur # split_from [] cs)
      else split_from (cur @ [c]) cs)"

definition split :: "pystr \<Rightarrow> pystr list" where
  "split s = split_from [] s"

text \<open>\<open>sep.join(parts)\<close>.\<close>

fun join :: "pystr \<Rightarrow> pystr list \<Rightarrow> pystr" where
  "join sep [] = []"
| "join sep [p] = p"
| "join sep (p # q # ps) = p @ sep @ join sep (q # ps)"

text \<open>\<open>sub in s\<close> on strings: \<open>sub\<close> occurs in \<open>s\<close> as a contiguous piece.\<close>

definition startswith :: "pystr \<Rightarrow> pystr \<Rightarrow> bool" where
  "startswith s sub \<longleftrightarrow> take (length sub) s = sub"

fun contains :: "pystr \<Rightarrow> pystr \<Rightarrow> bool" where
  "contains [] sub = (sub = [])"
| "contains (c # cs) sub = (startswith (c # cs) sub \<or> contains cs sub)"

text \<open>\<open>str(n)\<close> for an integer: decimal digits, with a minus sign when negative.\<close>

fun digits :: "nat \<Rightarrow> pystr" where
  "digits n = (if n < 10 then [48 + n] else digits (n div 10) @ [48 + n mod 10])"

definition str_of_int :: "int \<Rightarrow> pystr" where
  "str_of_int i = (if i < 0 then 45 # digits (nat (- i)) else digits (nat i))"

section \<open>The state store\<close>

text \<open>
  The document of \<open>memory/state.json\<close> after \<open>_load\<close>: three lists. Timestamps are
  the floats of \<open>datetime.timestamp()\<close>, taken as real numbers. \<open>_load\<close> followed by
  \<open>_save\<close> is a function from the document to the document written back; a method
  that reads the clock takes the reading \<open>now\<close> as an argument.
\<close>

record document =
  replied_post_ids :: "pystr list"
  advice_fingerprints :: "pystr list"
  comment_timestamps :: "real list"

definition empty_document :: document where
  "empty_document = \<lparr>replied_post_ids = [], advice_fingerprints = [], comment_timestamps = []\<rparr>"

definition has_replied :: "pystr \<Rightarrow> document \<Rightarrow> bool" where
  "has_replied post_id data \<longleftrightarrow> post_id \<in> set (replied_post_ids data)"

definition mark_replied :: "pystr \<Rightarrow> document \<Rightarrow> document" where
  "mark_replied post_id data =
     (if post_id \<notin> set (replied_post_ids data)
      then data\<lparr>replied_post_ids := replied_post_ids data @ [post_id]\<rparr>
      else data)"

definition has_advice :: "pystr \<Rightarrow> document \<Rightarrow> bool" where
  "has_advice fingerprint data \<longleftrightarrow> fingerprint \<in> set (advice_fingerprints data)"

definition add_advice :: "pystr \<Rightarrow> document \<Rightarrow> document" where
  "add_advice fingerprint data =
     (if fingerprint \<notin> set (advice_fingerprints data)
      then data\<lparr>advice_fingerprints := advice_fingerprints data @ [fingerprint]\<rparr>
      else data)"

text \<open>\<open>comment_count_last_hour\<close> returns the count and the document it saved.\<close>

definition comment_count_last_hour :: "real \<Rightarrow> document \<Rightarrow> nat \<times> document" where
  "comment_count_last_hour now data =
     (let recent = filter (\<lambda>ts. now - ts < 3600) (comment_timestamps data)
      in (length recent, data\<lparr>comment_timestamps := recent\<rparr>))"

definition record_comment_now :: "real \<Rightarrow> document \<Rightarrow> document" where
  "record_comment_now now data = data\<lparr>comment_timestamps := comment_timestamps data @ [now]\<rparr>"

section \<open>JSON values and posts\<close>

text \<open>
  What \<open>response.json()\<close> returns. A JSON object is the list of its items in order,
  with distinct keys; \<open>d.get(key, default)\<close> is \<open>dict_get\<close>.
\<close>

datatype json =
    JNull
  | JBool bool
  | JInt int
  | JFloat real
  | JStr pystr
  | JList "json list"
  | JDict "(pystr \<times> json) list"

type_synonym pydict = "(pystr \<times> json) list"

definition dict_get :: "pydict \<Rightarrow> pystr \<Rightarrow> json \<Rightarrow> json" where
  "dict_get d key dflt = (case map_of d key of None \<Rightarrow> dflt | Some v \<Rightarrow> v)"

section \<open>Configuration, environment and effects\<close>

record AgentConfig =
  name :: pystr
  submolt :: pystr
  api_base :: pystr
  dry_run :: bool
  max_comments_per_hour :: int
  min_loop_seconds :: int
  max_loop_seconds :: int
  fetch_limit :: int
  request_timeout_seconds :: int
  max_retries :: int

text \<open>
  What one call of \<open>session.request\<close> does: it raises (a network error or a timeout),
  or it returns a response with a status code, a text and the value of
  \<open>response.json()\<close>, which is \<open>None\<close> when the body is not JSON and \<open>json()\<close> raises.
\<close>

datatype outcome =
    NetworkError
  | Timeout
  | Response int pystr "json option"

text \<open>The exception an attempt ends with, bound to \<open>last_error\<close> in \<open>_request\<close>.\<close>

datatype attempt_error =
    ConnectionFailed
  | TimedOut
  | HTTPError int pystr
  | JSONDecodeError

text \<open>
  The exceptions that leave a function of the program. \<open>ValueError\<close> is raised by
  \<open>_check_url\<close> (with the blocked URL), by \<open>random.randint\<close> on an empty range and by
  \<open>time.sleep\<close> on a negative length; \<open>RuntimeError\<close> by \<open>_request\<close>, with
  \<open>last_error\<close>; \<open>AttributeError\<close> by \<open>.get\<close> on a value that is not a dict;
  \<open>TypeError\<close> by \<open>len\<close> of a value that has none; \<open>UnicodeEncodeError\<close> by
  \<open>print\<close> of a text that standard output cannot encode.
\<close>

datatype value_error = Blocked_by_allowlist pystr | Empty_range | Negative_sleep

datatype error =
    ValueError value_error
  | RuntimeError "attempt_error option"
  | AttributeError
  | TypeError
  | UnicodeEncodeError

record parse_result =
  scheme :: pystr
  netloc :: pystr

text \<open>
  The surroundings of a run. \<open>urlparse\<close> is \<open>urllib.parse.urlparse\<close> (its scheme and
  netloc), \<open>str_other\<close> is \<open>str()\<close> of a float, a list or a dict, and
  \<open>unicode_lower\<close> is \<open>str.lower()\<close> on text with characters beyond ASCII and U+2019:
  library functions, taken as parameters. \<open>stdout_encodes text\<close> says that standard
  output, with its encoding and error handler, can encode \<open>text\<close>, so that
  \<open>print(text)\<close> writes it; otherwise \<open>print\<close> raises. \<open>net k\<close> is what the network
  does to request number \<open>k\<close> of the run, \<open>clock k\<close> is reading number \<open>k\<close> of the
  UTC clock, and \<open>rand k\<close> is random draw number \<open>k\<close>.
\<close>

record env =
  urlparse :: "pystr \<Rightarrow> parse_result"
  str_other :: "json \<Rightarrow> pystr"
  unicode_lower :: "pystr \<Rightarrow> pystr"
  stdout_encodes :: "pystr \<Rightarrow> bool"
  net :: "nat \<Rightarrow> outcome"
  clock :: "nat \<Rightarrow> real"
  rand :: "nat \<Rightarrow> int"

text \<open>
  The lines the program prints, with the values their f-strings insert: the starting
  line (name, dry-run flag, submolt), the rate-limit line, the fetched line (count,
  submolt), the dry-run line (post identifier, reply), the posted line (post
  identifier) and the sleeping line (delay).
\<close>

datatype log_line =
    Log_starting pystr bool pystr
  | Log_rate_limit
  | Log_fetched nat pystr
  | Log_dry_run pystr pystr
  | Log_posted pystr
  | Log_sleeping int

text \<open>
  What a run does to the outside, in order: a call of \<open>session.request\<close> (method, URL,
  JSON payload), a \<open>time.sleep\<close>, a \<open>print\<close>.
\<close>

datatype event =
    NetRequest pystr pystr "json option"
  | Sleep real
  | Print log_line

text \<open>
  The state a run changes: the document on disk, the events so far, and how many
  requests, clock readings and random draws were made.
\<close>

record world =
  store :: document
  trace :: "event list"
  requests_made :: nat
  clock_reads :: nat
  rand_draws :: nat

definition emit :: "event \<Rightarrow> world \<Rightarrow> world" where
  "emit e w = w\<lparr>trace := trace w @ [e]\<rparr>"

text \<open>The text of a line, as the f-string of the source builds it.\<close>

definition line_text :: "log_line \<Rightarrow> pystr" where
  "line_text line =
     (case line of
        Log_starting agent dry sub \<Rightarrow>
          str ''Starting '' @ agent @ str '' | DRY_RUN='' @ (if dry then str ''True'' else str ''False'') @
          str '' | submolt='' @ sub
      | Log_rate_limit \<Rightarrow> str ''Rate limit: max comments/hour reached. Skipping cycle.''
      | Log_fetched n sub \<Rightarrow> str ''Fetched '' @ digits n @ str '' posts from m/'' @ sub @ str ''.''
      | Log_dry_run post_id reply \<Rightarrow> str ''[DRY_RUN] Would reply to post '' @ post_id @ str '': '' @ reply
      | Log_posted post_id \<Rightarrow> str ''Posted reply to '' @ post_id
      | Log_sleeping delay \<Rightarrow> str ''Sleeping '' @ str_of_int delay @ str ''s before next cycle...'')"

text \<open>
  \<open>print(line)\<close>: the line is written when standard output can encode its text;
  otherwise \<open>print\<close> raises \<open>UnicodeEncodeError\<close> and nothing is written.
\<close>

definition print_line :: "env \<Rightarrow> log_line \<Rightarrow> world \<Rightarrow> (error + unit) \<times> world" where
  "print_line E line w =
     (if stdout_encodes E (line_text line) then (Inr (), emit (Print line) w)
      else (Inl UnicodeEncodeError, w))"

definition read_clock :: "env \<Rightarrow> world \<Rightarrow> real \<times> world" where
  "read_clock E w = (clock E (clock_reads w), w\<lparr>clock_reads := Suc (clock_reads w)\<rparr>)"

text \<open>
  \<open>s.lower()\<close>. On text of ASCII characters and U+2019 Python lowercases character by
  character, as \<open>lower_char\<close> does; on any other text the result is what the
  environment's \<open>unicode_lower\<close> gives.
\<close>

definition lower :: "env \<Rightarrow> pystr \<Rightarrow> pystr" where
  "lower E s = (if list_all plain s then map lower_char s else unicode_lower E s)"

text \<open>\<open>str(v)\<close>, which is also how an f-string formats \<open>v\<close>.\<close>

definition py_str :: "env \<Rightarrow> json \<Rightarrow> pystr" where
  "py_str E v =
     (case v of
        JStr s \<Rightarrow> s
      | JNull \<Rightarrow> str ''None''
      | JBool b \<Rightarrow> (if b then str ''True'' else str ''False'')
      | JInt i \<Rightarrow> str_of_int i
      | _ \<Rightarrow> str_other E v)"

text \<open>
  The elements a \<open>for\<close> loop over \<open>v\<close> visits, after \<open>len(v)\<close> was taken: a list gives
  its elements, a dict its keys, a string its characters; anything else has no \<open>len\<close>.
\<close>

definition elements :: "json \<Rightarrow> error + json list" where
  "elements v =
     (case v of
        JList xs \<Rightarrow> Inr xs
      | JDict d \<Rightarrow> Inr (map (\<lambda>kv. JStr (fst kv)) d)
      | JStr s \<Rightarrow> Inr (map (\<lambda>c. JStr [c]) s)
      | _ \<Rightarrow> Inl TypeError)"

section \<open>The HTTP gateway\<close>

definition check_url :: "env \<Rightarrow> pystr \<Rightarrow> error + unit" where
  "check_url E url =
     (let parsed = urlparse E url
      in if scheme parsed \<noteq> str ''https'' \<or> netloc parsed \<noteq> str ''www.moltbook.com''
         then Inl (ValueError (Blocked_by_allowlist url))
         else Inr ())"

text \<open>The body of the \<open>try\<close> block of \<open>_request\<close>, given what the network did.\<close>

definition attempt_result :: "outcome \<Rightarrow> attempt_error + json" where
  "attempt_result out =
     (case out of
        NetworkError \<Rightarrow> Inl ConnectionFailed
      | Timeout \<Rightarrow> Inl TimedOut
      | Response status_code text body \<Rightarrow>
          if status_code \<ge> 400 then Inl (HTTPError status_code text)
          else (case body of None \<Rightarrow> Inl JSONDecodeError | Some v \<Rightarrow> Inr v))"

text \<open>
  The \<open>for attempt in range(1, max_retries + 1)\<close> loop of \<open>_request\<close>, on the attempt
  numbers still to run; falling out of the loop raises the \<open>RuntimeError\<close>.
\<close>

fun attempts ::
  "env \<Rightarrow> AgentConfig \<Rightarrow> pystr \<Rightarrow> pystr \<Rightarrow> json option \<Rightarrow> attempt_error option \<Rightarrow> int list \<Rightarrow>
   world \<Rightarrow> (error + json) \<times> world" where
  "attempts E config method url payload last_error [] w = (Inl (RuntimeError last_error), w)"
| "attempts E config method url payload last_error (attempt # rest) w =
     (let w1 = (emit (NetRequest method url payload) w)\<lparr>requests_made := Suc (requests_made w)\<rparr>
      in case attempt_result (net E (requests_made w)) of
           Inr v \<Rightarrow> (Inr v, w1)
         | Inl exc \<Rightarrow>
             attempts E config method url payload (Some exc) rest
               (if attempt < max_retries config then emit (Sleep (1.2 * real_of_int attempt)) w1
                else w1))"

definition request_url :: "AgentConfig \<Rightarrow> pystr \<Rightarrow> pystr" where
  "request_url config path = rstrip_char 47 (api_base config) @ str ''/'' @ lstrip_char 47 path"

definition request ::
  "env \<Rightarrow> AgentConfig \<Rightarrow> pystr \<Rightarrow> pystr \<Rightarrow> json option \<Rightarrow> world \<Rightarrow> (error + json) \<times> world" where
  "request E config method path payload w =
     (let url = request_url config path
      in case check_url E url of
           Inl e \<Rightarrow> (Inl e, w)
         | Inr _ \<Rightarrow> attempts E config method url payload None [1..max_retries config] w)"

text \<open>
  \<open>out.get("data", {}).get("posts", out.get("posts", []))\<close>: each \<open>.get\<close> needs a dict.
\<close>

definition posts_of :: "json \<Rightarrow> error + json" where
  "posts_of out =
     (case out of
        JDict o_items \<Rightarrow>
          (case dict_get o_items (str ''data'') (JDict []) of
             JDict d_items \<Rightarrow>
               Inr (dict_get d_items (str ''posts'') (dict_get o_items (str ''posts'') (JList [])))
           | _ \<Rightarrow> Inl AttributeError)
      | _ \<Rightarrow> Inl AttributeError)"

definition get_submolt_posts ::
  "env \<Rightarrow> AgentConfig \<Rightarrow> pystr \<Rightarrow> int \<Rightarrow> world \<Rightarrow> (error + json) \<times> world" where
  "get_submolt_posts E config sub limit w =
     (case request E config (str ''GET'')
             (str ''posts?submolt='' @ sub @ str ''&sort=new&limit='' @ str_of_int limit) None w of
        (Inl e, w') \<Rightarrow> (Inl e, w')
      | (Inr out, w') \<Rightarrow> (posts_of out, w'))"

definition comment ::
  "env \<Rightarrow> AgentConfig \<Rightarrow> pystr \<Rightarrow> pystr \<Rightarrow> world \<Rightarrow> (error + json) \<times> world" where
  "comment E config post_id content w =
     request E config (str ''POST'') (str ''posts/'' @ post_id @ str ''/comments'')
       (Some (JDict [(str ''content'', JStr content)])) w"

section \<open>The decision engine\<close>

definition short_fingerprint :: "env \<Rightarrow> pystr \<Rightarrow> pystr" where
  "short_fingerprint E text =
     (let normalized = join (str '' '') (split (lower E text)) in take 160 normalized)"

definition reply_default :: pystr where
  "reply_default =
     str ''I'' @ [8217] @ str ''m not fully convinced by this argument yet. '' @
     str ''Can you clarify the strongest evidence for your position and what would change your mind? '' @
     str ''I'' @ [8217] @ str ''m curious because weak assumptions often hide in the framing.''"

definition reply_sourcing :: pystr where
  "reply_sourcing =
     str ''This feels like a claim that needs stronger sourcing. '' @
     str ''I'' @ [8217] @ str ''m frustrated by loose logic, so let'' @ [8217] @ str ''s pressure-test it: '' @
     str ''what primary evidence supports your conclusion, and what counterexample have you ruled out?''"

text \<open>\<open>combined\<close>: the f-string of title and content, stripped.\<close>

definition combined_text :: "env \<Rightarrow> pydict \<Rightarrow> pystr" where
  "combined_text E post =
     (let title = dict_get post (str ''title'') (JStr []);
          content = dict_get post (str ''content'') (JStr [])
      in strip (py_str E title @ [10] @ py_str E content))"

text \<open>The value of \<open>reply\<close> before the fingerprint check: one of the two templates.\<close>

definition select_reply :: "env \<Rightarrow> pystr \<Rightarrow> pystr" where
  "select_reply E combined =
     (if contains (lower E combined) (str ''misinformation'') \<or> contains (lower E combined) (str ''false'')
      then reply_sourcing else reply_default)"

definition decide_reply :: "env \<Rightarrow> pydict \<Rightarrow> document \<Rightarrow> pystr option" where
  "decide_reply E post memory =
     (let combined = combined_text E post
      in if length combined < 30 then None
         else if \<not> contains combined (str ''?'') \<and> \<not> contains (lower E combined) (str ''debate'')
                 \<and> \<not> contains (lower E combined) (str ''why'')
         then None
         else let reply = select_reply E combined
              in if has_advice (short_fingerprint E reply) memory then None else Some reply)"

text \<open>
  The fingerprint as the specification words it: lowercase, collapse every run of
  whitespace to a single space, truncate to 160 characters. The flag of
  \<open>collapse_from\<close> says that the previous character was whitespace.
\<close>

fun collapse_from :: "bool \<Rightarrow> pystr \<Rightarrow> pystr" where
  "collapse_from in_run [] = []"
| "collapse_from in_run (c # cs) =
     (if isspace c then (if in_run then collapse_from True cs else 32 # collapse_from True cs)
      else c # collapse_from False cs)"

definition fingerprint_spec :: "env \<Rightarrow> pystr \<Rightarrow> pystr" where
  "fingerprint_spec E text = take 160 (collapse_from False (lower E text))"

section \<open>The scheduler\<close>

text \<open>
  What \<open>run_once\<close> does with an accepted candidate (lines 232 to 240): the dry-run line,
  or the comment and the posted line, then the three writes to the store. An exception
  of the comment or of a \<open>print\<close> ends it before the writes.
\<close>

definition act :: "env \<Rightarrow> AgentConfig \<Rightarrow> pystr \<Rightarrow> pystr \<Rightarrow> world \<Rightarrow> (error + unit) \<times> world" where
  "act E config post_id reply w =
     (case (if dry_run config then print_line E (Log_dry_run post_id reply) w
            else (case comment E config post_id reply w of
                    (Inl e, w') \<Rightarrow> (Inl e, w')
                  | (Inr _, w') \<Rightarrow> print_line E (Log_posted post_id) w')) of
        (Inl e, w1) \<Rightarrow> (Inl e, w1)
      | (Inr _, w1) \<Rightarrow>
          (let w2 = w1\<lparr>store := mark_replied post_id (store w1)\<rparr>;
               w3 = w2\<lparr>store := add_advice (short_fingerprint E reply) (store w2)\<rparr>;
               (now, w4) = read_clock E w3
           in (Inr (), w4\<lparr>store := record_comment_now now (store w4)\<rparr>)))"

text \<open>The \<open>for post in posts\<close> loop of \<open>run_once\<close>.\<close>

fun scan_posts :: "env \<Rightarrow> AgentConfig \<Rightarrow> json list \<Rightarrow> world \<Rightarrow> (error + unit) \<times> world" where
  "scan_posts E config [] w = (Inr (), w)"
| "scan_posts E config (post # rest) w =
     (case post of
        JDict p \<Rightarrow>
          (let post_id = py_str E (dict_get p (str ''id'') (JStr []))
           in if post_id = [] \<or> has_replied post_id (store w) then scan_posts E config rest w
              else (case decide_reply E p (store w) of
                      None \<Rightarrow> scan_posts E config rest w
                    | Some reply \<Rightarrow>
                        if reply = [] then scan_posts E config rest w
                        else act E config post_id reply w))
      | _ \<Rightarrow> (Inl AttributeError, w))"

text \<open>\<open>memory.comment_count_last_hour()\<close> as the run sees it: clock read, document saved.\<close>

definition count_last_hour :: "env \<Rightarrow> world \<Rightarrow> nat \<times> world" where
  "count_last_hour E w =
     (let (now, w0) = read_clock E w;
          (n, data) = comment_count_last_hour now (store w0)
      in (n, w0\<lparr>store := data\<rparr>))"

definition run_once :: "env \<Rightarrow> AgentConfig \<Rightarrow> world \<Rightarrow> (error + unit) \<times> world" where
  "run_once E config w =
     (let (n, w1) = count_last_hour E w
      in if int n \<ge> max_comments_per_hour config then print_line E Log_rate_limit w1
         else (case get_submolt_posts E config (submolt config) (fetch_limit config) w1 of
                 (Inl e, w2) \<Rightarrow> (Inl e, w2)
               | (Inr posts, w2) \<Rightarrow>
                   (case elements posts of
                      Inl e \<Rightarrow> (Inl e, w2)
                    | Inr ps \<Rightarrow>
                        (case print_line E (Log_fetched (length ps) (submolt config)) w2 of
                           (Inl e, w3) \<Rightarrow> (Inl e, w3)
                         | (Inr _, w3) \<Rightarrow> scan_posts E config ps w3))))"

text \<open>
  \<open>random.randint(a, b)\<close> and \<open>time.sleep(d)\<close>, with the \<open>ValueError\<close> each can raise.
\<close>

definition randint :: "env \<Rightarrow> int \<Rightarrow> int \<Rightarrow> world \<Rightarrow> (error + int) \<times> world" where
  "randint E a b w =
     (if b < a then (Inl (ValueError Empty_range), w)
      else (Inr (a + rand E (rand_draws w) mod (b - a + 1)), w\<lparr>rand_draws := Suc (rand_draws w)\<rparr>))"

definition sleep :: "real \<Rightarrow> world \<Rightarrow> (error + unit) \<times> world" where
  "sleep d w = (if d < 0 then (Inl (ValueError Negative_sleep), w) else (Inr (), emit (Sleep d) w))"

text \<open>
  How \<open>main\<close> ends, from line 276 on (the configuration is loaded): it returns an exit
  code, or an exception leaves it, or, for the \<open>while True\<close> loop run on \<open>fuel\<close>
  cycles, it is still running when the fuel is used up.
\<close>

datatype ending = Returned int | Uncaught error | Still_running

fun main_loop :: "nat \<Rightarrow> env \<Rightarrow> AgentConfig \<Rightarrow> world \<Rightarrow> ending \<times> world" where
  "main_loop 0 E config w = (Still_running, w)"
| "main_loop (Suc fuel) E config w =
     (case run_once E config w of
        (Inl e, w1) \<Rightarrow> (Uncaught e, w1)
      | (Inr _, w1) \<Rightarrow>
          (case randint E (min_loop_seconds config) (max_loop_seconds config) w1 of
             (Inl e, w2) \<Rightarrow> (Uncaught e, w2)
           | (Inr delay, w2) \<Rightarrow>
               (case print_line E (Log_sleeping delay) w2 of
                  (Inl e, w3) \<Rightarrow> (Uncaught e, w3)
                | (Inr _, w3) \<Rightarrow>
                    (case sleep (real_of_int delay) w3 of
                       (Inl e, w4) \<Rightarrow> (Uncaught e, w4)
                     | (Inr _, w4) \<Rightarrow> main_loop fuel E config w4))))"

definition main :: "bool \<Rightarrow> nat \<Rightarrow> env \<Rightarrow> AgentConfig \<Rightarrow> world \<Rightarrow> ending \<times> world" where
  "main once fuel E config w =
     (case print_line E (Log_starting (name config) (dry_run config) (submolt config)) w of
        (Inl e, w0) \<Rightarrow> (Uncaught e, w0)
      | (Inr _, w0) \<Rightarrow>
          if once
          then (case run_once E config w0 of
                  (Inl e, w1) \<Rightarrow> (Uncaught e, w1)
                | (Inr _, w1) \<Rightarrow> (Returned 0, w1))
          else main_loop fuel E config w0)"

section \<open>Predicates on traces and posts\<close>

text \<open>A comment-posting network call: a \<open>POST\<close> request.\<close>

definition is_comment_request :: "event \<Rightarrow> bool" where
  "is_comment_request ev = (case ev of NetRequest method url payload \<Rightarrow> method = str ''POST'' | _ \<Rightarrow> False)"

definition is_request :: "event \<Rightarrow> bool" where
  "is_request ev = (case ev of NetRequest method url payload \<Rightarrow> True | _ \<Rightarrow> False)"

text \<open>\<open>str(post.get("id", ""))\<close>.\<close>

definition post_id_of :: "env \<Rightarrow> pydict \<Rightarrow> pystr" where
  "post_id_of E p = py_str E (dict_get p (str ''id'') (JStr []))"

text \<open>
  What the loop of \<open>run_once\<close> does with a post, given the document: it passes over a
  dict whose identifier is empty or already replied to, or for which \<open>decide_reply\<close>
  has no candidate; it takes a dict with a fresh identifier and a candidate.
\<close>

definition skips :: "env \<Rightarrow> document \<Rightarrow> json \<Rightarrow> bool" where
  "skips E data post =
     (case post of
        JDict p \<Rightarrow> post_id_of E p = [] \<or> has_replied (post_id_of E p) data \<or> decide_reply E p data = None
      | _ \<Rightarrow> False)"

definition qualifies :: "env \<Rightarrow> document \<Rightarrow> pydict \<Rightarrow> pystr \<Rightarrow> bool" where
  "qualifies E data p reply \<longleftrightarrow>
     post_id_of E p \<noteq> [] \<and> \<not> has_replied (post_id_of E p) data \<and> decide_reply E p data = Some reply"

text \<open>The comment request \<open>client.comment(post_id, content)\<close> sends.\<close>

definition comment_request :: "AgentConfig \<Rightarrow> pystr \<Rightarrow> pystr \<Rightarrow> event" where
  "comment_request config post_id content =
     NetRequest (str ''POST'') (request_url config (str ''posts/'' @ post_id @ str ''/comments''))
       (Some (JDict [(str ''content'', JStr content)]))"

text \<open>
  Nothing was replied between two worlds: the replied identifiers and the fingerprints
  are the same, and no comment request was added.
\<close>

definition no_reply_between :: "world \<Rightarrow> world \<Rightarrow> bool" where
  "no_reply_between w w' \<longleftrightarrow>
     replied_post_ids (store w') = replied_post_ids (store w) \<and>
     advice_fingerprints (store w') = advice_fingerprints (store w) \<and>
     filter is_comment_request (trace w') = filter is_comment_request (trace w)"

text \<open>Both templates were used: their fingerprints are in the document.\<close>

definition both_used :: "env \<Rightarrow> document \<Rightarrow> bool" where
  "both_used E data \<longleftrightarrow>
     has_advice (short_fingerprint E reply_default) data \<and>
     has_advice (short_fingerprint E reply_sourcing) data"

text \<open>
  The specification's window of the last hour, \<open>[now - 3600, now)\<close>, and the count of
  the timestamps in it.
\<close>

definition in_spec_window :: "real \<Rightarrow> real \<Rightarrow> bool" where
  "in_spec_window now ts \<longleftrightarrow> now - 3600 \<le> ts \<and> ts < now"

definition count_spec_window :: "real \<Rightarrow> document \<Rightarrow> nat" where
  "count_spec_window now data = length (filter (in_spec_window now) (comment_timestamps data))"

section \<open>Concrete instances\<close>

text \<open>
  A small \<open>urlparse\<close> for the examples: the scheme is the lowercased text before the
  first colon when that text is a valid scheme, the netloc is what follows \<open>//\<close> up to
  the next \<open>/\<close>, \<open>?\<close> or \<open>#\<close>. On URLs of the shape \<open>scheme://netloc/path\<close> it gives
  what \<open>urllib.parse.urlparse\<close> gives.
\<close>

definition is_scheme_char :: "nat \<Rightarrow> bool" where
  "is_scheme_char c \<longleftrightarrow>
     (97 \<le> c \<and> c \<le> 122) \<or> (65 \<le> c \<and> c \<le> 90) \<or> (48 \<le> c \<and> c \<le> 57) \<or> c = 43 \<or> c = 45 \<or> c = 46"

definition netloc_of :: "pystr \<Rightarrow> pystr" where
  "netloc_of rest =
     (if take 2 rest = str ''//'' then takeWhile (\<lambda>c. c \<noteq> 47 \<and> c \<noteq> 63 \<and> c \<noteq> 35) (drop 2 rest) else [])"

definition urlparse_basic :: "pystr \<Rightarrow> parse_result" where
  "urlparse_basic url =
     (let front = takeWhile (\<lambda>c. c \<noteq> 58) url; from_colon = dropWhile (\<lambda>c. c \<noteq> 58) url
      in if from_colon \<noteq> [] \<and> front \<noteq> [] \<and> list_all is_scheme_char front
         then \<lparr>scheme = map lower_char front, netloc = netloc_of (tl from_colon)\<rparr>
         else \<lparr>scheme = [], netloc = netloc_of url\<rparr>)"

definition config_ex :: AgentConfig where
  "config_ex =
     \<lparr>name = str ''3mrAgent'', submolt = str ''general'',
      api_base = str ''https://www.moltbook.com/api/v1'', dry_run = False,
      max_comments_per_hour = 4, min_loop_seconds = 45, max_loop_seconds = 110,
      fetch_limit = 10, request_timeout_seconds = 20, max_retries = 3\<rparr>"

definition world_ex :: world where
  "world_ex = \<lparr>store = empty_document, trace = [], requests_made = 0, clock_reads = 0, rand_draws = 0\<rparr>"

text \<open>A network that answers every request with HTTP 500, and clocks and draws.\<close>

definition net_down :: "nat \<Rightarrow> outcome" where
  "net_down k = Response 500 (str ''unavailable'') None"

definition clock_ex :: "nat \<Rightarrow> real" where
  "clock_ex k = 7200 + real k"

definition rand_ex :: "nat \<Rightarrow> int" where
  "rand_ex k = int k"

definition str_other_ex :: "json \<Rightarrow> pystr" where
  "str_other_ex v = str ''<value>''"

definition unicode_lower_ex :: "pystr \<Rightarrow> pystr" where
  "unicode_lower_ex s = map lower_char s"

text \<open>
  A standard output in UTF-8 with the strict error handler: it encodes every text
  without a surrogate code point (U+D800 to U+DFFF).
\<close>

definition utf8_encodes :: "pystr \<Rightarrow> bool" where
  "utf8_encodes s = list_all (\<lambda>c. c < 55296 \<or> 57343 < c) s"

definition env_down :: env where
  "env_down = \<lparr>urlparse = urlparse_basic, str_other = str_other_ex,
                unicode_lower = unicode_lower_ex,
                stdout_encodes = utf8_encodes, net = net_down,
                clock = clock_ex, rand = rand_ex\<rparr>"

text \<open>
  A feed of two posts, the first already replied to and the second a question, and a
  network that returns it for the first request and acknowledges the second.
\<close>

definition post_one :: pydict where
  "post_one = [(str ''id'', JStr (str ''p1'')), (str ''title'', JStr (str ''Why do we debate?'')),
               (str ''content'', JStr (str ''An old question, answered before.''))]"

definition post_two :: pydict where
  "post_two = [(str ''id'', JStr (str ''p2'')), (str ''title'', JStr (str ''Is this claim true?'')),
               (str ''content'', JStr (str ''Tell me what the evidence is.''))]"

definition feed_body :: json where
  "feed_body = JDict [(str ''data'', JDict [(str ''posts'', JList [JDict post_one, JDict post_two])])]"

definition net_feed :: "nat \<Rightarrow> outcome" where
  "net_feed k = (if k = 0 then Response 200 [] (Some feed_body) else Response 201 [] (Some (JDict [])))"

definition env_feed :: env where
  "env_feed = \<lparr>urlparse = urlparse_basic, str_other = str_other_ex,
                unicode_lower = unicode_lower_ex,
                stdout_encodes = utf8_encodes, net = net_feed,
                clock = clock_ex, rand = rand_ex\<rparr>"

definition world_replied_one :: world where
  "world_replied_one =
     \<lparr>store = \<lparr>replied_post_ids = [str ''p1''], advice_fingerprints = [], comment_timestamps = [3600, 7000]\<rparr>,
      trace = [], requests_made = 0, clock_reads = 0, rand_draws = 0\<rparr>"

text \<open>A network whose first answer is HTTP 503 and whose second is the feed.\<close>

definition net_flaky :: "nat \<Rightarrow> outcome" where
  "net_flaky k = (if k = 0 then Response 503 [] None else Response 200 [] (Some feed_body))"

definition env_flaky :: env where
  "env_flaky = \<lparr>urlparse = urlparse_basic, str_other = str_other_ex,
                unicode_lower = unicode_lower_ex,
                stdout_encodes = utf8_encodes, net = net_flaky,
                 clock = clock_ex, rand = rand_ex\<rparr>"

text \<open>
  Worlds of the two-post example after the rate check and after the fetch, a world
  with four comments in the last hour, and a document in which both templates were used.
\<close>

definition world_counted :: world where
  "world_counted =
     \<lparr>store = \<lparr>replied_post_ids = [str ''p1''], advice_fingerprints = [], comment_timestamps = [7000]\<rparr>,
      trace = [], requests_made = 0, clock_reads = 1, rand_draws = 0\<rparr>"

definition feed_url :: pystr where
  "feed_url = str ''https://www.moltbook.com/api/v1/posts?submolt=general&sort=new&limit=10''"

definition world_fetched :: world where
  "world_fetched =
     \<lparr>store = \<lparr>replied_post_ids = [str ''p1''], advice_fingerprints = [], comment_timestamps = [7000]\<rparr>,
      trace = [NetRequest (str ''GET'') feed_url None],
      requests_made = 1, clock_reads = 1, rand_draws = 0\<rparr>"

definition world_busy :: world where
  "world_busy =
     \<lparr>store = \<lparr>replied_post_ids = [], advice_fingerprints = [],
                comment_timestamps = [3000, 6000, 6500, 7000, 7100]\<rparr>,
      trace = [], requests_made = 0, clock_reads = 0, rand_draws = 0\<rparr>"




definition net_comment_down :: "nat \<Rightarrow> outcome" where
  "net_comment_down k =
     (if k = 0 then Response 200 [] (Some feed_body) else Response 500 (str ''unavailable'') None)"

definition env_comment_down :: env where
  "env_comment_down = \<lparr>urlparse = urlparse_basic, str_other = str_other_ex,
                        unicode_lower = unicode_lower_ex, stdout_encodes = utf8_encodes,
                        net = net_comment_down, clock = clock_ex, rand = rand_ex\<rparr>"

definition doc_both :: document where
  "doc_both =
     \<lparr>replied_post_ids = [str ''p0'', str ''p1''],
      advice_fingerprints =
        [short_fingerprint env_feed reply_default, short_fingerprint env_feed reply_sourcing],
      comment_timestamps = []\<rparr>"

definition world_both :: world where
  "world_both = \<lparr>store = doc_both, trace = [], requests_made = 0, clock_reads = 0, rand_draws = 0\<rparr>"

text \<open>Documents for the window of the last hour.\<close>

definition doc_boundary :: document where
  "doc_boundary = \<lparr>replied_post_ids = [], advice_fingerprints = [], comment_timestamps = [3600]\<rparr>"

definition doc_hours :: document where
  "doc_hours =
     \<lparr>replied_post_ids = [], advice_fingerprints = [],
      comment_timestamps = [3599, 3600, 3601, 7200, 7300]\<rparr>"

section \<open>Properties of the state store\<close>



text \<open>
  Claim C2 as stated fails at the lower end of the window: a timestamp exactly 3600
  seconds old lies in \<open>[now - 3600, now)\<close>, and \<open>comment_count_last_hour\<close> does not
  count it.
\<close>

theorem count_window_counterexample:
  "fst (comment_count_last_hour 7200 doc_boundary) = 0 \<and> count_spec_window 7200 doc_boundary = 1"
  by (simp add: comment_count_last_hour_def count_spec_window_def in_spec_window_def
      doc_boundary_def)

text \<open>
  Claim C2, amended. \<open>comment_count_last_hour\<close> returns the number of stored
  timestamps \<open>ts\<close> with \<open>now - ts < 3600\<close>, that is \<open>now - 3600 < ts\<close> with no upper
  end, and saves the document with exactly those timestamps, in order. Every
  timestamp it keeps is less than 3600 seconds old, and a later call counts only
  timestamps that are less than 3600 seconds old at both calls.
\<close>

theorem comment_count_last_hour_prunes:
  "comment_count_last_hour now data =
     (length (filter (\<lambda>ts. now - 3600 < ts) (comment_timestamps data)),
      data\<lparr>comment_timestamps := filter (\<lambda>ts. now - 3600 < ts) (comment_timestamps data)\<rparr>) \<and>
   (\<forall>ts \<in> set (comment_timestamps (snd (comment_count_last_hour now data))). now - ts < 3600) \<and>
   fst (comment_count_last_hour later (snd (comment_count_last_hour now data))) =
     length (filter (\<lambda>ts. now - ts < 3600 \<and> later - ts < 3600) (comment_timestamps data))"
proof -
  have same: "(\<lambda>ts. now - ts < 3600) = (\<lambda>ts. now - 3600 < ts)"
    by (rule ext) arith
  have both: "(\<lambda>ts. now - ts < 3600 \<and> later - ts < 3600) =
      (\<lambda>ts. later - ts < 3600 \<and> now - ts < 3600)"
    by (rule ext) blast
  show ?thesis
    by (simp add: comment_count_last_hour_def Let_def same [symmetric] both)
qed

text \<open>
  Claim C2, amended, at time 7200 on timestamps 3599, 3600, 3601, 7200 and 7300, and
  a second call at time 10801.
\<close>

theorem comment_count_last_hour_prunes_witness:
  "comment_count_last_hour 7200 doc_hours =
     (3, \<lparr>replied_post_ids = [], advice_fingerprints = [],
          comment_timestamps = [3601, 7200, 7300]\<rparr>) \<and>
   fst (comment_count_last_hour 10801 (snd (comment_count_last_hour 7200 doc_hours))) = 1"
  using comment_count_last_hour_prunes [of 7200 doc_hours 10801]
  by (simp add: doc_hours_def comment_count_last_hour_def)

section \<open>Properties of the gateway\<close>

text \<open>
  Rule sets that evaluate the string functions and the URL check on literals.
\<close>

lemmas str_eval = str_def lower_def plain_def lower_char_def split_def isspace_def rstrip_def strip_def startswith_def
  lstrip_char_def rstrip_char_def str_of_int_def

lemmas url_eval = request_url_def check_url_def urlparse_basic_def netloc_of_def is_scheme_char_def

lemma upto_three: "[1..3] = [1, 2, 3 :: int]"
  by (simp add: upto_rec1)

text \<open>
  The retry loop when every attempt it runs fails, and when the attempt after a failing
  prefix succeeds.
\<close>

lemma attempts_all_fail:
  "\<forall>i < length as. isl (attempt_result (net E (requests_made w + i))) \<Longrightarrow>
   attempts E config method url payload last_error as w =
     (Inl (RuntimeError (if as = [] then last_error
        else Some (projl (attempt_result (net E (requests_made w + length as - 1)))))),
      w\<lparr>trace := trace w @ concat (map (\<lambda>a. if a < max_retries config
              then [NetRequest method url payload, Sleep (1.2 * real_of_int a)]
              else [NetRequest method url payload]) as),
        requests_made := requests_made w + length as\<rparr>)"
proof (induction as arbitrary: last_error w)
  case Nil
  show ?case by simp
next
  case (Cons a as)
  from Cons.prems have first: "isl (attempt_result (net E (requests_made w)))"
    by auto
  then obtain exc where exc: "attempt_result (net E (requests_made w)) = Inl exc"
    by (cases "attempt_result (net E (requests_made w))") auto
  define w1 where "w1 = (emit (NetRequest method url payload) w)\<lparr>requests_made := Suc (requests_made w)\<rparr>"
  define w2 where "w2 = (if a < max_retries config then emit (Sleep (1.2 * real_of_int a)) w1 else w1)"
  have rm: "requests_made w2 = Suc (requests_made w)"
    by (simp add: w2_def w1_def emit_def)
  have rest: "\<forall>i < length as. isl (attempt_result (net E (requests_made w2 + i)))"
    using Cons.prems by (auto simp: rm)
  have step: "attempts E config method url payload last_error (a # as) w =
      attempts E config method url payload (Some exc) as w2"
    by (simp add: exc w1_def w2_def Let_def)
  show ?case
    unfolding step Cons.IH [OF rest]
    by (cases as) (auto simp: rm exc w2_def w1_def emit_def)
qed

lemma attempts_success:
  "\<forall>i < length pre. isl (attempt_result (net E (requests_made w + i))) \<Longrightarrow>
   attempt_result (net E (requests_made w + length pre)) = Inr v \<Longrightarrow>
   attempts E config method url payload last_error (pre @ a # post) w =
     (Inr v,
      w\<lparr>trace := trace w @ concat (map (\<lambda>a. if a < max_retries config
              then [NetRequest method url payload, Sleep (1.2 * real_of_int a)]
              else [NetRequest method url payload]) pre) @ [NetRequest method url payload],
        requests_made := requests_made w + length pre + 1\<rparr>)"
proof (induction pre arbitrary: last_error w)
  case Nil
  then show ?case by (simp add: emit_def)
next
  case (Cons b pre)
  from Cons.prems(1) have first: "isl (attempt_result (net E (requests_made w)))"
    by auto
  then obtain exc where exc: "attempt_result (net E (requests_made w)) = Inl exc"
    by (cases "attempt_result (net E (requests_made w))") auto
  define w1 where "w1 = (emit (NetRequest method url payload) w)\<lparr>requests_made := Suc (requests_made w)\<rparr>"
  define w2 where "w2 = (if b < max_retries config then emit (Sleep (1.2 * real_of_int b)) w1 else w1)"
  have rm: "requests_made w2 = Suc (requests_made w)"
    by (simp add: w2_def w1_def emit_def)
  have rest: "\<forall>i < length pre. isl (attempt_result (net E (requests_made w2 + i)))"
    using Cons.prems(1) by (auto simp: rm)
  have hit: "attempt_result (net E (requests_made w2 + length pre)) = Inr v"
    using Cons.prems(2) by (simp add: rm)
  have step: "attempts E config method url payload last_error ((b # pre) @ a # post) w =
      attempts E config method url payload (Some exc) (pre @ a # post) w2"
    by (simp add: exc w1_def w2_def Let_def)
  show ?case
    unfolding step Cons.IH [OF rest hit]
    by (auto simp: rm w2_def w1_def emit_def)
qed

text \<open>
  Claim C3. For every request, when the scheme or the netloc that \<open>urlparse\<close> finds
  in the request URL differs from \<open>https\<close> and \<open>www.moltbook.com\<close>, \<open>_request\<close>
  raises the \<open>ValueError\<close> of the allowlist and leaves the world as it was: no request
  was sent, nothing slept, no attempt and no retry was made.
\<close>

theorem request_blocked:
  assumes "scheme (urlparse E (request_url config path)) \<noteq> str ''https'' \<or>
           netloc (urlparse E (request_url config path)) \<noteq> str ''www.moltbook.com''"
  shows "request E config method path payload w =
           (Inl (ValueError (Blocked_by_allowlist (request_url config path))), w)"
  using assms by (auto simp: request_def check_url_def Let_def)

text \<open>
  Claim C3 on a base URL with the scheme \<open>http\<close> and on one with another host.
\<close>

theorem request_blocked_witness:
  "request env_feed (config_ex\<lparr>api_base := str ''http://www.moltbook.com/api/v1''\<rparr>)
     (str ''GET'') (str ''posts'') None world_ex =
   (Inl (ValueError (Blocked_by_allowlist (str ''http://www.moltbook.com/api/v1/posts''))), world_ex) \<and>
   request env_feed (config_ex\<lparr>api_base := str ''https://moltbook.example/api/v1/''\<rparr>)
     (str ''POST'') (str ''/posts/p2/comments'') None world_ex =
   (Inl (ValueError (Blocked_by_allowlist (str ''https://moltbook.example/api/v1/posts/p2/comments''))),
    world_ex)"
  using request_blocked [of env_feed "config_ex\<lparr>api_base := str ''http://www.moltbook.com/api/v1''\<rparr>"
      "str ''posts''" "str ''GET''" None world_ex]
    request_blocked [of env_feed "config_ex\<lparr>api_base := str ''https://moltbook.example/api/v1/''\<rparr>"
      "str ''/posts/p2/comments''" "str ''POST''" None world_ex]
  by (simp add: env_feed_def config_ex_def url_eval str_eval)

text \<open>
  Claim C4. For a call that passes the allowlist: when every one of its
  \<open>max_retries\<close> attempts fails, it sends exactly one request per attempt number
  \<open>1..max_retries\<close>, sleeps \<open>1.2 * attempt\<close> after each attempt but the last, and
  raises one \<open>RuntimeError\<close> that carries the error of the last attempt (\<open>None\<close>
  when \<open>max_retries\<close> allows no attempt). When the attempts before attempt
  \<open>m + 1\<close> fail and that attempt succeeds, it returns the parsed body and sends no
  further request.
\<close>

theorem request_retry_policy:
  assumes allowed: "check_url E (request_url config path) = Inr ()"
  shows
    "((\<forall>i < nat (max_retries config). isl (attempt_result (net E (requests_made w + i)))) \<longrightarrow>
        request E config verb path payload w =
          (Inl (RuntimeError (if max_retries config \<le> 0 then None
             else Some (projl (attempt_result
                    (net E (requests_made w + nat (max_retries config) - 1)))))),
           w\<lparr>trace := trace w @ concat (map (\<lambda>a. if a < max_retries config
                  then [NetRequest verb (request_url config path) payload, Sleep (1.2 * real_of_int a)]
                  else [NetRequest verb (request_url config path) payload]) [1..max_retries config]),
             requests_made := requests_made w + nat (max_retries config)\<rparr>)) \<and>
     (m < nat (max_retries config) \<and>
      (\<forall>i < m. isl (attempt_result (net E (requests_made w + i)))) \<and>
      attempt_result (net E (requests_made w + m)) = Inr v \<longrightarrow>
        request E config verb path payload w =
          (Inr v,
           w\<lparr>trace := trace w @ concat (map (\<lambda>a.
                  [NetRequest verb (request_url config path) payload, Sleep (1.2 * real_of_int a)])
                  [1..int m]) @ [NetRequest verb (request_url config path) payload],
             requests_made := requests_made w + m + 1\<rparr>))"
proof (intro conjI impI)
  assume fails: "\<forall>i < nat (max_retries config). isl (attempt_result (net E (requests_made w + i)))"
  have len: "length [1..max_retries config] = nat (max_retries config)"
    by simp
  have empty: "[1..max_retries config] = [] \<longleftrightarrow> max_retries config \<le> 0"
    by auto
  show "request E config verb path payload w =
          (Inl (RuntimeError (if max_retries config \<le> 0 then None
             else Some (projl (attempt_result
                    (net E (requests_made w + nat (max_retries config) - 1)))))),
           w\<lparr>trace := trace w @ concat (map (\<lambda>a. if a < max_retries config
                  then [NetRequest verb (request_url config path) payload, Sleep (1.2 * real_of_int a)]
                  else [NetRequest verb (request_url config path) payload]) [1..max_retries config]),
             requests_made := requests_made w + nat (max_retries config)\<rparr>)"
    using attempts_all_fail [of "[1..max_retries config]" E w config verb
        "request_url config path" payload None] fails
    by (simp add: request_def allowed Let_def len empty del: length_upto)
next
  assume h: "m < nat (max_retries config) \<and>
      (\<forall>i < m. isl (attempt_result (net E (requests_made w + i)))) \<and>
      attempt_result (net E (requests_made w + m)) = Inr v"
  let ?pre = "[1..int m]"
  from h have bound: "int m + 1 \<le> max_retries config"
    by linarith
  have split: "[1..max_retries config] = ?pre @ (int m + 1) # [int m + 2..max_retries config]"
    using upto_split3 [of 1 "int m + 1" "max_retries config"] bound by (simp add: add.commute)
  have len: "length ?pre = m"
    by simp
  have early: "\<And>a. a \<in> set ?pre \<Longrightarrow> a < max_retries config"
    using h by auto
  have evs: "map (\<lambda>a. if a < max_retries config
                  then [NetRequest verb (request_url config path) payload, Sleep (1.2 * real_of_int a)]
                  else [NetRequest verb (request_url config path) payload]) ?pre =
             map (\<lambda>a. [NetRequest verb (request_url config path) payload, Sleep (1.2 * real_of_int a)]) ?pre"
    by (rule map_cong) (use early in auto)
  show "request E config verb path payload w =
          (Inr v,
           w\<lparr>trace := trace w @ concat (map (\<lambda>a.
                  [NetRequest verb (request_url config path) payload, Sleep (1.2 * real_of_int a)])
                  [1..int m]) @ [NetRequest verb (request_url config path) payload],
             requests_made := requests_made w + m + 1\<rparr>)"
    using attempts_success [of ?pre E w v config verb "request_url config path" payload None
        "int m + 1" "[int m + 2..max_retries config]"] h
    by (simp add: request_def allowed Let_def split [symmetric] len evs del: length_upto)
qed

text \<open>
  Claim C4 with \<open>max_retries = 3\<close>: a network that always answers 500 gives three
  requests with sleeps of 1.2 and 2.4 seconds between them and the \<open>RuntimeError\<close>;
  a network that fails once gives the body at the second request.
\<close>

theorem request_retry_policy_witness:
  "request env_down config_ex (str ''GET'') (str ''posts'') None world_ex =
     (Inl (RuntimeError (Some (HTTPError 500 (str ''unavailable'')))),
      world_ex\<lparr>trace :=
         [NetRequest (str ''GET'') (str ''https://www.moltbook.com/api/v1/posts'') None, Sleep 1.2,
          NetRequest (str ''GET'') (str ''https://www.moltbook.com/api/v1/posts'') None, Sleep 2.4,
          NetRequest (str ''GET'') (str ''https://www.moltbook.com/api/v1/posts'') None],
        requests_made := 3\<rparr>) \<and>
   request env_flaky config_ex (str ''GET'') (str ''posts'') None world_ex =
     (Inr feed_body,
      world_ex\<lparr>trace :=
         [NetRequest (str ''GET'') (str ''https://www.moltbook.com/api/v1/posts'') None, Sleep 1.2,
          NetRequest (str ''GET'') (str ''https://www.moltbook.com/api/v1/posts'') None],
        requests_made := 2\<rparr>)"
proof -
  let ?url = "request_url config_ex (str ''posts'')"
  have url: "?url = str ''https://www.moltbook.com/api/v1/posts''"
    by (simp add: request_url_def config_ex_def str_eval)
  have ok_down: "check_url env_down ?url = Inr ()"
    unfolding url by (simp add: env_down_def url_eval str_eval)
  have ok_flaky: "check_url env_flaky ?url = Inr ()"
    unfolding url by (simp add: env_flaky_def url_eval str_eval)
  have down: "\<forall>i < nat (max_retries config_ex).
      isl (attempt_result (net env_down (requests_made world_ex + i)))"
    by (simp add: env_down_def net_down_def attempt_result_def)
  have flaky: "1 < nat (max_retries config_ex) \<and>
      (\<forall>i < 1. isl (attempt_result (net env_flaky (requests_made world_ex + i)))) \<and>
      attempt_result (net env_flaky (requests_made world_ex + 1)) = Inr feed_body"
    by (simp add: env_flaky_def net_flaky_def attempt_result_def config_ex_def world_ex_def)
  note r1 = request_retry_policy [where E = env_down and config = config_ex
      and path = "str ''posts''" and w = world_ex and verb = "str ''GET''" and payload = None
      and m = 0 and v = JNull, OF ok_down, THEN conjunct1, THEN mp, OF down]
  note r2 = request_retry_policy [where E = env_flaky and config = config_ex
      and path = "str ''posts''" and w = world_ex and verb = "str ''GET''" and payload = None
      and m = 1 and v = feed_body, OF ok_flaky, THEN conjunct2, THEN mp, OF flaky]
  have three: "[1..3] = [1, 2, 3 :: int]"
    by (simp add: upto_rec1)
  show ?thesis
    unfolding r1 r2 url
    by (simp add: env_down_def net_down_def attempt_result_def config_ex_def world_ex_def three)
qed

text \<open>
  What a call of the gateway leaves behind: the store and the counters of clock and
  random draws are untouched, and every request among the new events is the request
  of this call. A call that passes the allowlist and whose attempts all fail raises the
  \<open>RuntimeError\<close>.
\<close>

lemma attempts_effects:
  "attempts E config method url payload last_error as w = (r, w') \<Longrightarrow>
   store w' = store w \<and> clock_reads w' = clock_reads w \<and> rand_draws w' = rand_draws w \<and>
   (\<exists>evs. trace w' = trace w @ evs \<and>
      (\<forall>ev \<in> set evs. ev = NetRequest method url payload \<or> \<not> is_request ev))"
proof (induction as arbitrary: last_error w)
  case Nil
  then show ?case by auto
next
  case (Cons a as)
  show ?case
  proof (cases "attempt_result (net E (requests_made w))")
    case (Inr v)
    with Cons.prems show ?thesis
      by (auto simp: Let_def emit_def is_request_def)
  next
    case (Inl exc)
    define w2 where "w2 = (if a < max_retries config
        then emit (Sleep (1.2 * real_of_int a))
               ((emit (NetRequest method url payload) w)\<lparr>requests_made := Suc (requests_made w)\<rparr>)
        else (emit (NetRequest method url payload) w)\<lparr>requests_made := Suc (requests_made w)\<rparr>)"
    from Cons.prems Inl have "attempts E config method url payload (Some exc) as w2 = (r, w')"
      by (simp add: Let_def w2_def)
    from Cons.IH [OF this] obtain evs where
      keep: "store w' = store w2" "clock_reads w' = clock_reads w2" "rand_draws w' = rand_draws w2"
      and evs: "trace w' = trace w2 @ evs"
        "\<forall>ev \<in> set evs. ev = NetRequest method url payload \<or> \<not> is_request ev"
      by blast
    have w2: "store w2 = store w" "clock_reads w2 = clock_reads w" "rand_draws w2 = rand_draws w"
      by (simp_all add: w2_def emit_def)
    obtain front where front: "trace w2 = trace w @ front"
      "\<forall>ev \<in> set front. ev = NetRequest method url payload \<or> \<not> is_request ev"
      by (cases "a < max_retries config") (auto simp: w2_def emit_def is_request_def)
    have "trace w' = trace w @ (front @ evs)"
      by (simp add: evs front)
    moreover have "\<forall>ev \<in> set (front @ evs). ev = NetRequest method url payload \<or> \<not> is_request ev"
      using evs front by auto
    ultimately show ?thesis
      using keep w2 by metis
  qed
qed

lemma request_effects:
  assumes "request E config method path payload w = (r, w')"
  shows "store w' = store w \<and> clock_reads w' = clock_reads w \<and> rand_draws w' = rand_draws w \<and>
   (\<exists>evs. trace w' = trace w @ evs \<and>
      (\<forall>ev \<in> set evs. ev = NetRequest method (request_url config path) payload \<or> \<not> is_request ev))"
proof (cases "check_url E (request_url config path)")
  case (Inl e)
  with assms show ?thesis
    by (auto simp: request_def Let_def)
next
  case (Inr u)
  with assms have "attempts E config method (request_url config path) payload None
      [1..max_retries config] w = (r, w')"
    by (simp add: request_def Let_def)
  from attempts_effects [OF this] show ?thesis .
qed

lemma get_is_not_post: "str ''GET'' \<noteq> str ''POST''"
  by (simp add: str_def)

lemma get_submolt_posts_effects:
  assumes "get_submolt_posts E config sub limit w = (r, w')"
  shows "store w' = store w \<and> clock_reads w' = clock_reads w \<and> rand_draws w' = rand_draws w \<and>
         filter is_comment_request (trace w') = filter is_comment_request (trace w)"
proof -
  let ?path = "str ''posts?submolt='' @ sub @ str ''&sort=new&limit='' @ str_of_int limit"
  obtain r0 w0 where req: "request E config (str ''GET'') ?path None w = (r0, w0)"
    by (cases "request E config (str ''GET'') ?path None w") auto
  with assms have same: "w' = w0"
    by (cases r0) (auto simp: get_submolt_posts_def)
  from request_effects [OF req] obtain evs where
    keep: "store w0 = store w" "clock_reads w0 = clock_reads w" "rand_draws w0 = rand_draws w"
    and evs: "trace w0 = trace w @ evs"
      "\<forall>ev \<in> set evs. ev = NetRequest (str ''GET'') (request_url config ?path) None \<or> \<not> is_request ev"
    by blast
  have "\<forall>ev \<in> set evs. \<not> is_comment_request ev"
    using evs(2) get_is_not_post
    by (auto simp: is_comment_request_def is_request_def split: event.splits)
  then have "filter is_comment_request evs = []"
    by (simp add: filter_empty_conv)
  with keep evs(1) same show ?thesis by simp
qed

lemma comment_effects:
  assumes "comment E config post_id content w = (r, w')"
  shows "store w' = store w \<and> clock_reads w' = clock_reads w \<and> rand_draws w' = rand_draws w \<and>
         (\<exists>k. filter is_comment_request (trace w') =
               filter is_comment_request (trace w) @ replicate k (comment_request config post_id content))"
proof -
  let ?req = "comment_request config post_id content"
  from assms request_effects [of E config "str ''POST''" "str ''posts/'' @ post_id @ str ''/comments''"
      "Some (JDict [(str ''content'', JStr content)])" w r w']
  obtain evs where
    keep: "store w' = store w" "clock_reads w' = clock_reads w" "rand_draws w' = rand_draws w"
    and evs: "trace w' = trace w @ evs" "\<forall>ev \<in> set evs. ev = ?req \<or> \<not> is_request ev"
    by (auto simp: comment_def comment_request_def)
  have "\<forall>ev \<in> set (filter is_comment_request evs). ev = ?req"
    using evs(2) by (auto simp: is_comment_request_def is_request_def split: event.splits)
  then have "replicate (length (filter is_comment_request evs)) ?req = filter is_comment_request evs"
    by (rule replicate_length_same)
  then have "filter is_comment_request (trace w') =
      filter is_comment_request (trace w) @ replicate (length (filter is_comment_request evs)) ?req"
    by (simp add: evs(1))
  with keep show ?thesis by blast
qed

lemma request_exhausted:
  assumes "check_url E (request_url config path) = Inr ()"
    and "\<forall>i < nat (max_retries config). isl (attempt_result (net E (requests_made w + i)))"
  shows "\<exists>failure w'. request E config verb path payload w = (Inl (RuntimeError failure), w')"
proof -
  from assms(2) have "\<forall>i < length [1..max_retries config].
      isl (attempt_result (net E (requests_made w + i)))"
    by simp
  from attempts_all_fail [OF this] obtain failure w' where
    "attempts E config verb (request_url config path) payload None [1..max_retries config] w =
       (Inl (RuntimeError failure), w')"
    by blast
  then have "request E config verb path payload w = (Inl (RuntimeError failure), w')"
    by (simp add: request_def assms(1) Let_def)
  then show ?thesis by blast
qed

section \<open>Properties of the decision engine\<close>

text \<open>
  What \<open>" ".join(s.split())\<close> computes, for every text: the text without its leading
  and trailing whitespace, each run of whitespace inside it collapsed to one space.
\<close>

lemma rstrip_Cons: "rstrip (c # s) = (if list_all isspace (c # s) then [] else c # rstrip s)"
proof (cases "list_all isspace s")
  case True
  then have "\<forall>x \<in> set (rev s). isspace x"
    by (simp add: list_all_iff)
  then have "dropWhile isspace (rev s @ [c]) = dropWhile isspace [c]"
    by (simp add: dropWhile_append)
  moreover have "dropWhile isspace (rev s) = []"
    using True by (simp add: list_all_iff)
  ultimately show ?thesis
    using True by (simp add: rstrip_def)
next
  case False
  then have "\<not> (\<forall>x \<in> set (rev s). isspace x)"
    by (simp add: list_all_iff)
  then have "dropWhile isspace (rev s @ [c]) = dropWhile isspace (rev s) @ [c]"
    by (simp add: dropWhile_append)
  with False show ?thesis
    by (simp add: rstrip_def)
qed

lemma rstrip_all_space: "list_all isspace s \<Longrightarrow> rstrip s = []"
  by (simp add: rstrip_def list_all_iff)

lemma split_from_Nil_iff: "split_from cur s = [] \<longleftrightarrow> cur = [] \<and> list_all isspace s"
  by (induction s arbitrary: cur) auto

lemma join_Cons: "join sep (p # ws) = (if ws = [] then p else p @ sep @ join sep ws)"
  by (cases ws) auto

lemma join_split_from:
  "join [32] (split_from cur s) =
     (if cur = [] then collapse_from True (rstrip s) else cur @ collapse_from False (rstrip s))"
proof (induction s arbitrary: cur)
  case Nil
  show ?case by (simp add: rstrip_def)
next
  case (Cons c s)
  show ?case
  proof (cases "isspace c")
    case False
    then show ?thesis
      using Cons.IH [of "cur @ [c]"] by (simp add: rstrip_Cons)
  next
    case True
    show ?thesis
    proof (cases "list_all isspace s")
      case all: True
      then have "split_from [] s = []"
        by (simp add: split_from_Nil_iff)
      with True all show ?thesis
        by (simp add: rstrip_Cons)
    next
      case some: False
      then have "split_from [] s \<noteq> []"
        by (simp add: split_from_Nil_iff)
      with True some show ?thesis
        using Cons.IH [of "[]"] by (simp add: rstrip_Cons join_Cons)
    qed
  qed
qed

lemma collapse_leading: "collapse_from True s = collapse_from False (dropWhile isspace s)"
  by (induction s) auto

lemma dropWhile_rstrip: "dropWhile isspace (rstrip s) = rstrip (dropWhile isspace s)"
proof (induction s)
  case Nil
  show ?case by (simp add: rstrip_def)
next
  case (Cons c s)
  show ?case
  proof (cases "list_all isspace (c # s)")
    case True
    then have "dropWhile isspace (c # s) = []"
      by (simp add: list_all_iff)
    moreover from True have "rstrip (c # s) = []"
      by (rule rstrip_all_space)
    ultimately show ?thesis
      by (simp only: dropWhile.simps(1)) (simp add: rstrip_def)
  next
    case False
    with Cons.IH show ?thesis
      by (simp add: rstrip_Cons)
  qed
qed

lemma join_split: "join (str '' '') (split s) = collapse_from False (strip s)"
proof -
  have "join [32] (split_from [] s) = collapse_from True (rstrip s)"
    by (simp add: join_split_from)
  also have "\<dots> = collapse_from False (dropWhile isspace (rstrip s))"
    by (rule collapse_leading)
  also have "\<dots> = collapse_from False (strip s)"
    by (simp add: dropWhile_rstrip strip_def)
  finally show ?thesis
    by (simp add: split_def str_def)
qed

text \<open>
  The templates have the lengths of the source's literals, and on both the fingerprint
  of the code is the fingerprint of the specification.
\<close>

lemma template_lengths: "length reply_default = 199 \<and> length reply_sourcing = 203"
  by (simp add: reply_default_def reply_sourcing_def str_def)

lemma fingerprint_default: "short_fingerprint E reply_default = fingerprint_spec E reply_default"
  by (simp add: short_fingerprint_def fingerprint_spec_def reply_default_def str_eval)

lemma fingerprint_sourcing: "short_fingerprint E reply_sourcing = fingerprint_spec E reply_sourcing"
  by (simp add: short_fingerprint_def fingerprint_spec_def reply_sourcing_def str_eval)

text \<open>
  The two fingerprints, written out.
\<close>

lemma fingerprint_default_value:
  "short_fingerprint E reply_default =
     str ''i'' @ [8217] @ str ''m not fully convinced by this argument yet. '' @
     str ''can you clarify the strongest evidence for your position and what would change your mind? '' @
     str ''i'' @ [8217] @ str ''m curious because weak''"
  by (simp add: short_fingerprint_def reply_default_def str_eval)

lemma fingerprint_sourcing_value:
  "short_fingerprint E reply_sourcing =
     str ''this feels like a claim that needs stronger sourcing. '' @
     str ''i'' @ [8217] @ str ''m frustrated by loose logic, so let'' @ [8217] @ str ''s pressure-test it: '' @
     str ''what primary evidence supports your conclusion, ''"
  by (simp add: short_fingerprint_def reply_sourcing_def str_eval)

text \<open>
  On text with leading whitespace the two differ, since \<open>split\<close> drops it;
  \<open>decide_reply\<close> and \<open>run_once\<close> take the fingerprint of a template only.
\<close>

lemma fingerprint_padding:
  "short_fingerprint E (str '' Yes'') = str ''yes'' \<and> fingerprint_spec E (str '' Yes'') = str '' yes''"
  by (simp add: short_fingerprint_def fingerprint_spec_def str_eval)

lemma select_reply_cases: "select_reply E c = reply_default \<or> select_reply E c = reply_sourcing"
  by (simp add: select_reply_def)

lemma templates_nonempty: "reply_default \<noteq> [] \<and> reply_sourcing \<noteq> []"
  by (simp add: reply_default_def reply_sourcing_def str_def)

lemma decide_reply_Some:
  "decide_reply E post memory = Some r \<Longrightarrow>
   r = select_reply E (combined_text E post) \<and> \<not> has_advice (short_fingerprint E r) memory"
  by (auto simp: decide_reply_def Let_def split: if_splits)

lemma decide_reply_nonempty: "decide_reply E post memory = Some r \<Longrightarrow> r \<noteq> []"
  using decide_reply_Some [of E post memory r] select_reply_cases [where E = E and c = "combined_text E post"]
    templates_nonempty by auto

lemma decide_reply_both_used: "both_used E memory \<Longrightarrow> decide_reply E post memory = None"
  using select_reply_cases [where E = E and c = "combined_text E post"]
  by (auto simp: decide_reply_def both_used_def Let_def)

text \<open>
  Claim C6. For every text \<open>s\<close>, \<open>short_fingerprint\<close> is the first 160 characters of
  the lowercased text with its runs of whitespace collapsed to single spaces, leading and
  trailing whitespace dropped; where the lowercased text has no leading or trailing
  whitespace this is the fingerprint of the specification. For every post and document,
  the candidate reply of \<open>decide_reply\<close> is such a text, so its fingerprint is the
  fingerprint of the specification, and when that fingerprint is in the document
  \<open>decide_reply\<close> returns no candidate, whatever the post.
\<close>

theorem decide_reply_duplicate_guard:
  "short_fingerprint E s = take 160 (collapse_from False (strip (lower E s))) \<and>
   (strip (lower E s) = lower E s \<longrightarrow> short_fingerprint E s = fingerprint_spec E s) \<and>
   short_fingerprint E (select_reply E (combined_text E post)) =
     fingerprint_spec E (select_reply E (combined_text E post)) \<and>
   (has_advice (fingerprint_spec E (select_reply E (combined_text E post))) memory \<longrightarrow>
      decide_reply E post memory = None)"
proof -
  have steps: "short_fingerprint E s = take 160 (collapse_from False (strip (lower E s)))"
    by (simp add: short_fingerprint_def join_split)
  then have unpadded: "strip (lower E s) = lower E s \<longrightarrow>
      short_fingerprint E s = fingerprint_spec E s"
    by (simp add: fingerprint_spec_def)
  have same: "short_fingerprint E (select_reply E (combined_text E post)) =
      fingerprint_spec E (select_reply E (combined_text E post))"
    using select_reply_cases [where E = E and c = "combined_text E post"]
      fingerprint_default fingerprint_sourcing
    by auto
  have guard: "has_advice (fingerprint_spec E (select_reply E (combined_text E post))) memory \<longrightarrow>
      decide_reply E post memory = None"
    unfolding same [symmetric] by (simp add: decide_reply_def Let_def)
  from steps unpadded same guard show ?thesis
    by blast
qed

lemma decide_example: "advice_fingerprints memory = [] \<Longrightarrow>
    decide_reply E post_two memory = Some reply_default"
  by (simp add: decide_reply_def combined_text_def post_two_def dict_get_def py_str_def
      select_reply_def has_advice_def str_eval)

lemma select_example: "select_reply env_feed (combined_text env_feed post_one) = reply_default"
  by (simp add: combined_text_def post_one_def dict_get_def py_str_def select_reply_def str_eval)

lemma decide_one: "decide_reply env_feed post_one empty_document = Some reply_default"
  by (simp add: decide_reply_def combined_text_def post_one_def dict_get_def py_str_def
      select_reply_def has_advice_def empty_document_def str_eval)

text \<open>
  Claim C6 on a text with two spaces in a row, and on the first post of the example,
  which qualifies on an empty document and gets no candidate once the fingerprint of the
  default template was recorded.
\<close>

theorem decide_reply_duplicate_guard_witness:
  "short_fingerprint env_feed (str ''Two  Words'') = str ''two words'' \<and>
   take 160 (collapse_from False (strip (lower env_feed (str ''Two  Words'')))) = str ''two words'' \<and>
   fingerprint_spec env_feed (str ''Two  Words'') = str ''two words'' \<and>
   decide_reply env_feed post_one empty_document = Some reply_default \<and>
   short_fingerprint env_feed reply_default = fingerprint_spec env_feed reply_default \<and>
   decide_reply env_feed post_one (add_advice (short_fingerprint env_feed reply_default) empty_document) = None"
proof -
  let ?memory = "add_advice (short_fingerprint env_feed reply_default) empty_document"
  note guard = decide_reply_duplicate_guard [where E = env_feed and s = "str ''Two  Words''"
      and post = post_one and memory = ?memory, unfolded select_example]
  have two: "short_fingerprint env_feed (str ''Two  Words'') = str ''two words''"
    by (simp add: short_fingerprint_def str_eval)
  from guard have "short_fingerprint env_feed (str ''Two  Words'') =
      take 160 (collapse_from False (strip (lower env_feed (str ''Two  Words''))))"
    by (rule conjunct1)
  with two have steps: "take 160 (collapse_from False (strip (lower env_feed (str ''Two  Words'')))) =
      str ''two words''"
    by (simp only:)
  have unpadded: "strip (lower env_feed (str ''Two  Words'')) = lower env_feed (str ''Two  Words'')"
    by (simp add: str_eval)
  with guard have "short_fingerprint env_feed (str ''Two  Words'') =
      fingerprint_spec env_feed (str ''Two  Words'')"
    by blast
  with two have spec: "fingerprint_spec env_feed (str ''Two  Words'') = str ''two words''"
    by (simp only:)
  from guard have same: "short_fingerprint env_feed reply_default = fingerprint_spec env_feed reply_default"
    by blast
  have "has_advice (fingerprint_spec env_feed reply_default) ?memory"
    unfolding same [symmetric] by (simp add: has_advice_def add_advice_def empty_document_def)
  with guard have silent: "decide_reply env_feed post_one ?memory = None"
    by blast
  from two steps spec decide_one same silent show ?thesis
    by (intro conjI)
qed

section \<open>Properties of the scheduler\<close>

lemmas run_eval = run_once_def count_last_hour_def read_clock_def comment_count_last_hour_def
  get_submolt_posts_def request_def attempt_result_def emit_def posts_of_def elements_def
  dict_get_def clock_ex_def Let_def

lemmas print_eval = print_line_def line_text_def utf8_encodes_def


lemma scan_skip:
  "\<forall>q \<in> set skipped. skips E (store w) q \<Longrightarrow>
   scan_posts E config (skipped @ rest) w = scan_posts E config rest w"
proof (induction skipped)
  case Nil
  show ?case by simp
next
  case (Cons q skipped)
  from Cons.prems have q: "skips E (store w) q" and others: "\<forall>q \<in> set skipped. skips E (store w) q"
    by simp_all
  from q obtain p where p: "q = JDict p"
    and why: "post_id_of E p = [] \<or> has_replied (post_id_of E p) (store w) \<or>
              decide_reply E p (store w) = None"
    by (cases q) (auto simp: skips_def)
  have "scan_posts E config ((q # skipped) @ rest) w = scan_posts E config (skipped @ rest) w"
    using why by (auto simp: p post_id_of_def Let_def)
  with Cons.IH [OF others] show ?case by simp
qed

lemma scan_accept:
  assumes "qualifies E (store w) p reply"
  shows "scan_posts E config (JDict p # rest) w = act E config (post_id_of E p) reply w"
proof -
  from assms have "reply \<noteq> []"
    by (auto simp: qualifies_def dest: decide_reply_nonempty)
  with assms show ?thesis
    by (simp add: qualifies_def post_id_of_def Let_def)
qed

lemma print_line_effects:
  "print_line E line w = (r, w') \<Longrightarrow>
   store w' = store w \<and> requests_made w' = requests_made w \<and> clock_reads w' = clock_reads w \<and>
   rand_draws w' = rand_draws w \<and>
   filter is_comment_request (trace w') = filter is_comment_request (trace w)"
  by (auto simp: print_line_def emit_def is_comment_request_def split: if_splits)

lemma run_once_scans:
  assumes "count_last_hour E w = (n, w1)" and "int n < max_comments_per_hour config"
    and "get_submolt_posts E config (submolt config) (fetch_limit config) w1 = (Inr body, w2)"
    and "elements body = Inr ps"
  shows "run_once E config w =
           (case print_line E (Log_fetched (length ps) (submolt config)) w2 of
              (Inl e, w3) \<Rightarrow> (Inl e, w3)
            | (Inr u, w3) \<Rightarrow> scan_posts E config ps w3)"
  using assms by (simp add: run_once_def)

lemma act_effects:
  assumes "act E config post_id reply w = (r, w')"
  shows "\<exists>k. filter is_comment_request (trace w') =
              filter is_comment_request (trace w) @ replicate k (comment_request config post_id reply)"
proof (cases "dry_run config")
  case True
  with assms have "filter is_comment_request (trace w') = filter is_comment_request (trace w)"
    by (auto simp: act_def print_line_def emit_def read_clock_def Let_def is_comment_request_def
        split: if_splits)
  then have "filter is_comment_request (trace w') =
      filter is_comment_request (trace w) @ replicate 0 (comment_request config post_id reply)"
    by simp
  then show ?thesis ..
next
  case False
  obtain r0 w0 where c: "comment E config post_id reply w = (r0, w0)"
    by (cases "comment E config post_id reply w") auto
  from comment_effects [OF c] obtain k where
    k: "filter is_comment_request (trace w0) =
        filter is_comment_request (trace w) @ replicate k (comment_request config post_id reply)"
    by blast
  have "filter is_comment_request (trace w') = filter is_comment_request (trace w0)"
    using assms False c
    by (cases r0)
      (auto simp: act_def print_line_def emit_def read_clock_def Let_def is_comment_request_def
        split: if_splits)
  with k show ?thesis by auto
qed

lemma run_once_acts:
  assumes "count_last_hour E w = (n, w1)" and "int n < max_comments_per_hour config"
    and "get_submolt_posts E config (submolt config) (fetch_limit config) w1 = (Inr body, w2)"
    and "elements body = Inr (skipped @ JDict p # rest)"
    and "\<forall>q \<in> set skipped. skips E (store w2) q"
    and "qualifies E (store w2) p reply"
  shows "run_once E config w =
           (case print_line E (Log_fetched (length (skipped @ JDict p # rest)) (submolt config)) w2 of
              (Inl e, w3) \<Rightarrow> (Inl e, w3)
            | (Inr u, w3) \<Rightarrow> act E config (post_id_of E p) reply w3)"
proof -
  let ?line = "Log_fetched (length (skipped @ JDict p # rest)) (submolt config)"
  obtain r w3 where printed: "print_line E ?line w2 = (r, w3)"
    by (cases "print_line E ?line w2") auto
  from print_line_effects [OF printed] have st: "store w3 = store w2"
    by simp
  have "scan_posts E config (skipped @ JDict p # rest) w3 = scan_posts E config (JDict p # rest) w3"
    using assms(5) by (intro scan_skip) (simp add: st)
  also have "\<dots> = act E config (post_id_of E p) reply w3"
    using assms(6) by (intro scan_accept) (simp add: st)
  finally have scan: "scan_posts E config (skipped @ JDict p # rest) w3 =
      act E config (post_id_of E p) reply w3" .
  show ?thesis
    unfolding run_once_scans [OF assms(1-4)] printed
    by (cases r) (simp_all only: scan prod.case sum.case)
qed

lemma count_last_hour_effects:
  "count_last_hour E w = (n, w1) \<Longrightarrow>
   replied_post_ids (store w1) = replied_post_ids (store w) \<and>
   advice_fingerprints (store w1) = advice_fingerprints (store w) \<and>
   trace w1 = trace w \<and> requests_made w1 = requests_made w"
  by (auto simp: count_last_hour_def read_clock_def comment_count_last_hour_def Let_def)

text \<open>
  The two-post example, step by step.
\<close>

lemma count_example:
  "clock E = clock_ex \<Longrightarrow> count_last_hour E world_replied_one = (1, world_counted)"
  by (simp add: run_eval world_replied_one_def world_counted_def)

lemma fetch_example:
  assumes "urlparse E = urlparse_basic" and "net E 0 = Response 200 [] (Some feed_body)"
    and "api_base config = api_base config_ex" and "max_retries config = 3"
    and "submolt config = str ''general''" and "fetch_limit config = 10"
  shows "get_submolt_posts E config (submolt config) (fetch_limit config) world_counted =
     (Inr (JList [JDict post_one, JDict post_two]), world_fetched)"
  using assms
  by (simp add: run_eval config_ex_def world_counted_def world_fetched_def
      feed_url_def feed_body_def upto_three url_eval str_eval)

lemma elements_example:
  "elements (JList [JDict post_one, JDict post_two]) = Inr ([JDict post_one] @ JDict post_two # [])"
  by (simp add: elements_def)

lemma skips_example: "\<forall>q \<in> set [JDict post_one]. skips E (store world_fetched) q"
  by (simp add: skips_def post_id_of_def post_one_def dict_get_def py_str_def has_replied_def
      world_fetched_def str_def)

lemma post_two_id: "post_id_of E post_two = str ''p2''"
  by (simp add: post_id_of_def post_two_def dict_get_def py_str_def str_def)

lemma qualifies_example: "qualifies E (store world_fetched) post_two reply_default"
proof -
  have "decide_reply E post_two (store world_fetched) = Some reply_default"
    by (rule decide_example) (simp add: world_fetched_def)
  then show ?thesis
    by (simp add: qualifies_def post_two_id has_replied_def world_fetched_def str_def)
qed

lemma fetched_line_example:
  "stdout_encodes E = utf8_encodes \<Longrightarrow> submolt config = str ''general'' \<Longrightarrow>
   stdout_encodes E
     (line_text (Log_fetched (length ([JDict post_one] @ JDict post_two # [])) (submolt config)))"
  by (simp add: print_eval str_def)

text \<open>
  Claim C8. For every configuration, when the count that \<open>comment_count_last_hour\<close>
  returns at the start of the cycle is at least \<open>max_comments_per_hour\<close>, the cycle
  ends at once: it has read the clock and saved the pruned document, and it prints the
  rate-limit line and returns, or, on a standard output that cannot encode that line,
  leaves with the error of \<open>print\<close>. Either way it has sent no request, so no fetch.
\<close>

theorem rate_limit_skips_cycle:
  assumes "int (fst (comment_count_last_hour (clock E (clock_reads w)) (store w)))
             \<ge> max_comments_per_hour config"
  shows "run_once E config w =
           (if stdout_encodes E (line_text Log_rate_limit)
            then (Inr (),
                  w\<lparr>store := snd (comment_count_last_hour (clock E (clock_reads w)) (store w)),
                    trace := trace w @ [Print Log_rate_limit],
                    clock_reads := Suc (clock_reads w)\<rparr>)
            else (Inl UnicodeEncodeError,
                  w\<lparr>store := snd (comment_count_last_hour (clock E (clock_reads w)) (store w)),
                    clock_reads := Suc (clock_reads w)\<rparr>))"
  using assms
  by (simp add: run_once_def count_last_hour_def read_clock_def print_line_def emit_def split_beta
      Let_def)

text \<open>
  Claim C8 with a limit of four and four comments in the last hour.
\<close>

theorem rate_limit_skips_cycle_witness:
  "run_once env_feed config_ex world_busy =
     (Inr (),
      world_busy\<lparr>store := \<lparr>replied_post_ids = [], advice_fingerprints = [],
                           comment_timestamps = [6000, 6500, 7000, 7100]\<rparr>,
        trace := [Print Log_rate_limit], clock_reads := 1\<rparr>)"
proof -
  have full: "int (fst (comment_count_last_hour (clock env_feed (clock_reads world_busy))
      (store world_busy))) \<ge> max_comments_per_hour config_ex"
    by (simp add: comment_count_last_hour_def env_feed_def clock_ex_def world_busy_def config_ex_def)
  have line: "stdout_encodes env_feed (line_text Log_rate_limit)"
    by (simp add: print_eval env_feed_def str_def)
  show ?thesis
    unfolding rate_limit_skips_cycle [OF full] using line
    by (simp add: comment_count_last_hour_def env_feed_def clock_ex_def world_busy_def)
qed




text \<open>
  Claim C7. In a cycle whose feed is a run of posts that are passed over (empty
  identifier, already replied to, or no candidate), then a post with a candidate, then
  any further elements, \<open>run_once\<close>, once the fetched line is printed, does exactly
  what acting once on that post does: the elements after it play no part, even those
  that are not posts. The comment requests the cycle adds are the attempts of that one
  comment, all against that post. (If \<open>print\<close> of the fetched line raises, the cycle
  ends there, before the scan, with no comment request.)
\<close>

theorem run_once_first_candidate:
  assumes "count_last_hour E w = (n, w1)" and "int n < max_comments_per_hour config"
    and "get_submolt_posts E config (submolt config) (fetch_limit config) w1 = (Inr body, w2)"
    and "elements body = Inr (skipped @ JDict p # rest)"
    and "\<forall>q \<in> set skipped. skips E (store w2) q"
    and "qualifies E (store w2) p reply"
  shows "run_once E config w =
           (if stdout_encodes E
                 (line_text (Log_fetched (length (skipped @ JDict p # rest)) (submolt config)))
            then act E config (post_id_of E p) reply
                   (emit (Print (Log_fetched (length (skipped @ JDict p # rest)) (submolt config))) w2)
            else (Inl UnicodeEncodeError, w2)) \<and>
         (\<exists>k. filter is_comment_request (trace (snd (run_once E config w))) =
               filter is_comment_request (trace w) @
               replicate k (comment_request config (post_id_of E p) reply))"
proof -
  let ?w3 = "emit (Print (Log_fetched (length (skipped @ JDict p # rest)) (submolt config))) w2"
  let ?req = "comment_request config (post_id_of E p) reply"
  have run: "run_once E config w =
      (if stdout_encodes E (line_text (Log_fetched (length (skipped @ JDict p # rest)) (submolt config)))
       then act E config (post_id_of E p) reply ?w3 else (Inl UnicodeEncodeError, w2))"
    unfolding run_once_acts [OF assms] by (simp add: print_line_def)
  have before: "filter is_comment_request (trace w2) = filter is_comment_request (trace w)"
    using get_submolt_posts_effects [OF assms(3)] count_last_hour_effects [OF assms(1)] by simp
  have "\<exists>k. filter is_comment_request (trace (snd (run_once E config w))) =
      filter is_comment_request (trace w) @ replicate k ?req"
  proof (cases "stdout_encodes E
      (line_text (Log_fetched (length (skipped @ JDict p # rest)) (submolt config)))")
    case False
    with run have "snd (run_once E config w) = w2"
      by simp
    with before have "filter is_comment_request (trace (snd (run_once E config w))) =
        filter is_comment_request (trace w) @ replicate 0 ?req"
      by simp
    then show ?thesis ..
  next
    case True
    obtain r w' where act: "act E config (post_id_of E p) reply ?w3 = (r, w')"
      by (cases "act E config (post_id_of E p) reply ?w3") auto
    have final: "snd (run_once E config w) = w'"
      using run True by (simp only: act snd_conv if_True)
    from act_effects [OF act] obtain k where
      k: "filter is_comment_request (trace w') = filter is_comment_request (trace ?w3) @ replicate k ?req"
      by blast
    have "filter is_comment_request (trace ?w3) = filter is_comment_request (trace w2)"
      by (simp add: emit_def is_comment_request_def)
    with k before have "filter is_comment_request (trace (snd (run_once E config w))) =
        filter is_comment_request (trace w) @ replicate k ?req"
      unfolding final by simp
    then show ?thesis ..
  qed
  with run show ?thesis
    by (rule conjI)
qed

text \<open>
  Claim C7 on the two-post example: the first post is already replied to, the second
  qualifies, and the one comment request goes to the second.
\<close>

theorem run_once_first_candidate_witness:
  "run_once env_feed config_ex world_replied_one =
     (Inr (),
      \<lparr>store = \<lparr>replied_post_ids = [str ''p1'', str ''p2''],
                advice_fingerprints = [short_fingerprint env_feed reply_default],
                comment_timestamps = [7000, 7201]\<rparr>,
       trace = [NetRequest (str ''GET'') feed_url None,
                Print (Log_fetched 2 (str ''general'')),
                NetRequest (str ''POST'') (str ''https://www.moltbook.com/api/v1/posts/p2/comments'')
                  (Some (JDict [(str ''content'', JStr reply_default)])),
                Print (Log_posted (str ''p2''))],
       requests_made = 2, clock_reads = 2, rand_draws = 0\<rparr>)"
proof -
  have count: "count_last_hour env_feed world_replied_one = (1, world_counted)"
    by (rule count_example) (simp add: env_feed_def)
  have rate: "int 1 < max_comments_per_hour config_ex"
    by (simp add: config_ex_def)
  have fetch: "get_submolt_posts env_feed config_ex (submolt config_ex) (fetch_limit config_ex)
      world_counted = (Inr (JList [JDict post_one, JDict post_two]), world_fetched)"
    by (rule fetch_example) (simp_all add: env_feed_def net_feed_def config_ex_def)
  have line: "stdout_encodes env_feed
      (line_text (Log_fetched (length ([JDict post_one] @ JDict post_two # [])) (submolt config_ex)))"
    by (rule fetched_line_example) (simp_all add: env_feed_def config_ex_def)
  note run = run_once_first_candidate [OF count rate fetch elements_example
      skips_example qualifies_example, THEN conjunct1]
  have acted: "run_once env_feed config_ex world_replied_one =
      act env_feed config_ex (str ''p2'') reply_default
        (emit (Print (Log_fetched (length ([JDict post_one] @ JDict post_two # [])) (submolt config_ex)))
           world_fetched)"
    using run line by (simp only: if_True post_two_id)
  show ?thesis
    unfolding acted
    by (simp add: act_def comment_def run_eval print_eval mark_replied_def add_advice_def
        record_comment_now_def world_fetched_def env_feed_def net_feed_def config_ex_def
        upto_three url_eval str_eval)
qed

lemma start_down:
  "print_line env_down (Log_starting (name config_ex) (dry_run config_ex) (submolt config_ex)) world_ex =
     (Inr (), emit (Print (Log_starting (str ''3mrAgent'') False (str ''general''))) world_ex)"
  by (simp add: print_eval env_down_def config_ex_def str_def)

lemma count_down:
  "count_last_hour env_down (emit (Print (Log_starting (str ''3mrAgent'') False (str ''general''))) world_ex) =
     (0, world_ex\<lparr>trace := [Print (Log_starting (str ''3mrAgent'') False (str ''general''))],
                  clock_reads := 1\<rparr>)"
  by (simp add: run_eval env_down_def world_ex_def empty_document_def)

lemma fetch_down:
  "get_submolt_posts env_down config_ex (submolt config_ex) (fetch_limit config_ex)
     (world_ex\<lparr>trace := [Print (Log_starting (str ''3mrAgent'') False (str ''general''))],
               clock_reads := 1\<rparr>) =
     (Inl (RuntimeError (Some (HTTPError 500 (str ''unavailable'')))),
      world_ex\<lparr>trace :=
         [Print (Log_starting (str ''3mrAgent'') False (str ''general'')),
          NetRequest (str ''GET'') feed_url None, Sleep 1.2,
          NetRequest (str ''GET'') feed_url None, Sleep 2.4,
          NetRequest (str ''GET'') feed_url None],
        requests_made := 3, clock_reads := 1\<rparr>)"
  by (simp add: run_eval env_down_def net_down_def config_ex_def world_ex_def empty_document_def
      feed_url_def upto_three url_eval str_eval)

text \<open>
  Claim C1 as stated fails: in loop mode, with fuel for five cycles, a fetch whose three
  attempts all get HTTP 500 ends \<open>main\<close> with the uncaught \<open>RuntimeError\<close> after the
  three requests of the first cycle; no sleep between cycles and no second cycle follow.
\<close>

theorem loop_dies_counterexample:
  "main False 5 env_down config_ex world_ex =
     (Uncaught (RuntimeError (Some (HTTPError 500 (str ''unavailable'')))),
      world_ex\<lparr>trace :=
         [Print (Log_starting (str ''3mrAgent'') False (str ''general'')),
          NetRequest (str ''GET'') feed_url None, Sleep 1.2,
          NetRequest (str ''GET'') feed_url None, Sleep 2.4,
          NetRequest (str ''GET'') feed_url None],
        requests_made := 3, clock_reads := 1\<rparr>)"
proof -
  have rate: "(max_comments_per_hour config_ex \<le> int 0) = False"
    by (simp add: config_ex_def)
  have "run_once env_down config_ex
      (emit (Print (Log_starting (str ''3mrAgent'') False (str ''general''))) world_ex) =
     (Inl (RuntimeError (Some (HTTPError 500 (str ''unavailable'')))),
      world_ex\<lparr>trace :=
         [Print (Log_starting (str ''3mrAgent'') False (str ''general'')),
          NetRequest (str ''GET'') feed_url None, Sleep 1.2,
          NetRequest (str ''GET'') feed_url None, Sleep 2.4,
          NetRequest (str ''GET'') feed_url None],
        requests_made := 3, clock_reads := 1\<rparr>)"
    by (simp only: run_once_def count_down Let_def prod.case rate if_False fetch_down sum.case)
  then show ?thesis
    by (simp add: main_def start_down eval_nat_numeral)
qed

text \<open>
  Claim C1, amended. In a cycle that passes the rate check, when the fetch raises the
  \<open>RuntimeError\<close> of its exhausted retries, and also when the fetch succeeds, the scan
  reaches a qualifying post, \<open>dry_run\<close> is off and the comment raises that
  \<open>RuntimeError\<close>, the error leaves \<open>run_once\<close> in the world that gateway call left
  (nothing is written to the store after it), and it leaves the loop of \<open>main\<close>
  uncaught, with no sleep and no further cycle; \<open>main\<close> started in loop mode and
  started with \<open>--once\<close> ends with that same uncaught error. The last two parts state
  the same from the network: a fetch or a comment that passes the allowlist and fails
  at every attempt ends the loop so.
\<close>

theorem gateway_failure_ends_main:
  assumes "count_last_hour E w = (n, w1)" and "int n < max_comments_per_hour config"
  shows
    "(get_submolt_posts E config (submolt config) (fetch_limit config) w1 =
        (Inl (RuntimeError failure), w2) \<longrightarrow>
      run_once E config w = (Inl (RuntimeError failure), w2) \<and>
      main_loop (Suc fuel) E config w = (Uncaught (RuntimeError failure), w2) \<and>
      (print_line E (Log_starting (name config) (dry_run config) (submolt config)) wstart = (Inr (), w) \<longrightarrow>
         main False (Suc fuel) E config wstart = (Uncaught (RuntimeError failure), w2) \<and>
         main True fuel E config wstart = (Uncaught (RuntimeError failure), w2))) \<and>
     (get_submolt_posts E config (submolt config) (fetch_limit config) w1 = (Inr body, w2) \<and>
      elements body = Inr (skipped @ JDict p # rest) \<and>
      (\<forall>q \<in> set skipped. skips E (store w2) q) \<and>
      qualifies E (store w2) p reply \<and>
      stdout_encodes E (line_text (Log_fetched (length (skipped @ JDict p # rest)) (submolt config))) \<and>
      \<not> dry_run config \<and>
      comment E config (post_id_of E p) reply
        (emit (Print (Log_fetched (length (skipped @ JDict p # rest)) (submolt config))) w2) =
        (Inl (RuntimeError failure), w3) \<longrightarrow>
      run_once E config w = (Inl (RuntimeError failure), w3) \<and>
      main_loop (Suc fuel) E config w = (Uncaught (RuntimeError failure), w3) \<and>
      (print_line E (Log_starting (name config) (dry_run config) (submolt config)) wstart = (Inr (), w) \<longrightarrow>
         main False (Suc fuel) E config wstart = (Uncaught (RuntimeError failure), w3) \<and>
         main True fuel E config wstart = (Uncaught (RuntimeError failure), w3))) \<and>
     (check_url E (request_url config
          (str ''posts?submolt='' @ submolt config @ str ''&sort=new&limit='' @
           str_of_int (fetch_limit config))) = Inr () \<and>
      (\<forall>i < nat (max_retries config). isl (attempt_result (net E (requests_made w + i)))) \<longrightarrow>
      (\<exists>exhausted w'. run_once E config w = (Inl (RuntimeError exhausted), w') \<and>
         main_loop (Suc fuel) E config w = (Uncaught (RuntimeError exhausted), w'))) \<and>
     (get_submolt_posts E config (submolt config) (fetch_limit config) w1 = (Inr body, w2) \<and>
      elements body = Inr (skipped @ JDict p # rest) \<and>
      (\<forall>q \<in> set skipped. skips E (store w2) q) \<and>
      qualifies E (store w2) p reply \<and>
      stdout_encodes E (line_text (Log_fetched (length (skipped @ JDict p # rest)) (submolt config))) \<and>
      \<not> dry_run config \<and>
      check_url E (request_url config (str ''posts/'' @ post_id_of E p @ str ''/comments'')) = Inr () \<and>
      (\<forall>i < nat (max_retries config). isl (attempt_result (net E (requests_made w2 + i)))) \<longrightarrow>
      (\<exists>exhausted w'. run_once E config w = (Inl (RuntimeError exhausted), w') \<and>
         main_loop (Suc fuel) E config w = (Uncaught (RuntimeError exhausted), w')))"
proof (intro conjI impI)
  assume fetch: "get_submolt_posts E config (submolt config) (fetch_limit config) w1 =
      (Inl (RuntimeError failure), w2)"
  show run: "run_once E config w = (Inl (RuntimeError failure), w2)"
    using assms fetch by (simp add: run_once_def)
  then show "main_loop (Suc fuel) E config w = (Uncaught (RuntimeError failure), w2)"
    by simp
  assume start: "print_line E (Log_starting (name config) (dry_run config) (submolt config)) wstart =
      (Inr (), w)"
  from start run
  show "main False (Suc fuel) E config wstart = (Uncaught (RuntimeError failure), w2)"
    and "main True fuel E config wstart = (Uncaught (RuntimeError failure), w2)"
    by (simp_all add: main_def)
next
  let ?w3 = "emit (Print (Log_fetched (length (skipped @ JDict p # rest)) (submolt config))) w2"
  assume reach: "get_submolt_posts E config (submolt config) (fetch_limit config) w1 = (Inr body, w2) \<and>
      elements body = Inr (skipped @ JDict p # rest) \<and>
      (\<forall>q \<in> set skipped. skips E (store w2) q) \<and>
      qualifies E (store w2) p reply \<and>
      stdout_encodes E (line_text (Log_fetched (length (skipped @ JDict p # rest)) (submolt config))) \<and>
      \<not> dry_run config \<and>
      comment E config (post_id_of E p) reply
        (emit (Print (Log_fetched (length (skipped @ JDict p # rest)) (submolt config))) w2) =
        (Inl (RuntimeError failure), w3)"
  then have fetch: "get_submolt_posts E config (submolt config) (fetch_limit config) w1 = (Inr body, w2)"
    and feed: "elements body = Inr (skipped @ JDict p # rest)"
    and passed: "\<forall>q \<in> set skipped. skips E (store w2) q"
    and accepted: "qualifies E (store w2) p reply"
    and line: "stdout_encodes E
        (line_text (Log_fetched (length (skipped @ JDict p # rest)) (submolt config)))"
    and wet: "\<not> dry_run config"
    and fails: "comment E config (post_id_of E p) reply ?w3 = (Inl (RuntimeError failure), w3)"
    by blast+
  have "run_once E config w = act E config (post_id_of E p) reply ?w3"
    unfolding run_once_acts [OF assms fetch feed passed accepted] using line
    by (simp add: print_line_def)
  also have "\<dots> = (Inl (RuntimeError failure), w3)"
    using wet fails by (simp add: act_def)
  finally show run: "run_once E config w = (Inl (RuntimeError failure), w3)" .
  then show "main_loop (Suc fuel) E config w = (Uncaught (RuntimeError failure), w3)"
    by simp
  assume start: "print_line E (Log_starting (name config) (dry_run config) (submolt config)) wstart =
      (Inr (), w)"
  from start run
  show "main False (Suc fuel) E config wstart = (Uncaught (RuntimeError failure), w3)"
    and "main True fuel E config wstart = (Uncaught (RuntimeError failure), w3)"
    by (simp_all add: main_def)
next
  assume net: "check_url E (request_url config
          (str ''posts?submolt='' @ submolt config @ str ''&sort=new&limit='' @
           str_of_int (fetch_limit config))) = Inr () \<and>
      (\<forall>i < nat (max_retries config). isl (attempt_result (net E (requests_made w + i))))"
  from count_last_hour_effects [OF assms(1)] have "requests_made w1 = requests_made w"
    by simp
  with net request_exhausted [of E config _ w1 "str ''GET'' " None]
  obtain exhausted w' where "get_submolt_posts E config (submolt config) (fetch_limit config) w1 =
      (Inl (RuntimeError exhausted), w')"
    by (fastforce simp: get_submolt_posts_def)
  with assms have run: "run_once E config w = (Inl (RuntimeError exhausted), w')"
    by (simp add: run_once_def)
  then have "main_loop (Suc fuel) E config w = (Uncaught (RuntimeError exhausted), w')"
    by simp
  with run show "\<exists>exhausted w'. run_once E config w = (Inl (RuntimeError exhausted), w') \<and>
      main_loop (Suc fuel) E config w = (Uncaught (RuntimeError exhausted), w')"
    by blast
next
  let ?w3 = "emit (Print (Log_fetched (length (skipped @ JDict p # rest)) (submolt config))) w2"
  assume reach: "get_submolt_posts E config (submolt config) (fetch_limit config) w1 = (Inr body, w2) \<and>
      elements body = Inr (skipped @ JDict p # rest) \<and>
      (\<forall>q \<in> set skipped. skips E (store w2) q) \<and>
      qualifies E (store w2) p reply \<and>
      stdout_encodes E (line_text (Log_fetched (length (skipped @ JDict p # rest)) (submolt config))) \<and>
      \<not> dry_run config \<and>
      check_url E (request_url config (str ''posts/'' @ post_id_of E p @ str ''/comments'')) = Inr () \<and>
      (\<forall>i < nat (max_retries config). isl (attempt_result (net E (requests_made w2 + i))))"
  then have fetch: "get_submolt_posts E config (submolt config) (fetch_limit config) w1 = (Inr body, w2)"
    and feed: "elements body = Inr (skipped @ JDict p # rest)"
    and passed: "\<forall>q \<in> set skipped. skips E (store w2) q"
    and accepted: "qualifies E (store w2) p reply"
    and line: "stdout_encodes E
        (line_text (Log_fetched (length (skipped @ JDict p # rest)) (submolt config)))"
    and wet: "\<not> dry_run config"
    and allowed: "check_url E (request_url config (str ''posts/'' @ post_id_of E p @ str ''/comments'')) =
        Inr ()"
    and down: "\<forall>i < nat (max_retries config). isl (attempt_result (net E (requests_made w2 + i)))"
    by blast+
  have "requests_made ?w3 = requests_made w2"
    by (simp add: emit_def)
  with allowed down request_exhausted [of E config "str ''posts/'' @ post_id_of E p @ str ''/comments''" ?w3
      "str ''POST''" "Some (JDict [(str ''content'', JStr reply)])"]
  obtain exhausted w' where fails: "comment E config (post_id_of E p) reply ?w3 =
      (Inl (RuntimeError exhausted), w')"
    by (fastforce simp: comment_def)
  have "run_once E config w = act E config (post_id_of E p) reply ?w3"
    unfolding run_once_acts [OF assms fetch feed passed accepted] using line
    by (simp add: print_line_def)
  also have "\<dots> = (Inl (RuntimeError exhausted), w')"
    using wet fails by (simp add: act_def)
  finally have run: "run_once E config w = (Inl (RuntimeError exhausted), w')" .
  then have "main_loop (Suc fuel) E config w = (Uncaught (RuntimeError exhausted), w')"
    by simp
  with run show "\<exists>exhausted w'. run_once E config w = (Inl (RuntimeError exhausted), w') \<and>
      main_loop (Suc fuel) E config w = (Uncaught (RuntimeError exhausted), w')"
    by blast
qed

lemma comment_down_example:
  "comment env_comment_down config_ex (post_id_of env_comment_down post_two) reply_default
     (emit (Print (Log_fetched (length ([JDict post_one] @ JDict post_two # [])) (submolt config_ex)))
        world_fetched) =
   (Inl (RuntimeError (Some (HTTPError 500 (str ''unavailable'')))),
    world_fetched\<lparr>trace :=
       [NetRequest (str ''GET'') feed_url None,
        Print (Log_fetched 2 (str ''general'')),
        comment_request config_ex (str ''p2'') reply_default, Sleep 1.2,
        comment_request config_ex (str ''p2'') reply_default, Sleep 2.4,
        comment_request config_ex (str ''p2'') reply_default],
      requests_made := 4\<rparr>)"
  unfolding post_two_id
  by (simp add: comment_def comment_request_def run_eval env_comment_down_def net_comment_down_def
      config_ex_def world_fetched_def upto_three url_eval str_eval)

text \<open>
  Claim C1, amended, on the network that always answers 500 (the fetch fails) and on the
  network that answers the feed and then 500 (the comment fails).
\<close>

theorem gateway_failure_ends_main_witness:
  "main_loop 3 env_down config_ex
     (emit (Print (Log_starting (str ''3mrAgent'') False (str ''general''))) world_ex) =
     (Uncaught (RuntimeError (Some (HTTPError 500 (str ''unavailable'')))),
      world_ex\<lparr>trace :=
         [Print (Log_starting (str ''3mrAgent'') False (str ''general'')),
          NetRequest (str ''GET'') feed_url None, Sleep 1.2,
          NetRequest (str ''GET'') feed_url None, Sleep 2.4,
          NetRequest (str ''GET'') feed_url None],
        requests_made := 3, clock_reads := 1\<rparr>) \<and>
   main True 0 env_down config_ex world_ex =
     (Uncaught (RuntimeError (Some (HTTPError 500 (str ''unavailable'')))),
      world_ex\<lparr>trace :=
         [Print (Log_starting (str ''3mrAgent'') False (str ''general'')),
          NetRequest (str ''GET'') feed_url None, Sleep 1.2,
          NetRequest (str ''GET'') feed_url None, Sleep 2.4,
          NetRequest (str ''GET'') feed_url None],
        requests_made := 3, clock_reads := 1\<rparr>) \<and>
   main_loop 2 env_comment_down config_ex world_replied_one =
     (Uncaught (RuntimeError (Some (HTTPError 500 (str ''unavailable'')))),
      world_fetched\<lparr>trace :=
         [NetRequest (str ''GET'') feed_url None,
          Print (Log_fetched 2 (str ''general'')),
          comment_request config_ex (str ''p2'') reply_default, Sleep 1.2,
          comment_request config_ex (str ''p2'') reply_default, Sleep 2.4,
          comment_request config_ex (str ''p2'') reply_default],
        requests_made := 4\<rparr>)"
proof -
  have rate0: "int 0 < max_comments_per_hour config_ex" and rate1: "int 1 < max_comments_per_hour config_ex"
    by (simp_all add: config_ex_def)
  note fetch_case = gateway_failure_ends_main [OF count_down rate0, where fuel = 2 and wstart = world_ex,
      THEN conjunct1, THEN mp, OF fetch_down]
  from fetch_case have loop: "main_loop (Suc 2) env_down config_ex
      (emit (Print (Log_starting (str ''3mrAgent'') False (str ''general''))) world_ex) =
     (Uncaught (RuntimeError (Some (HTTPError 500 (str ''unavailable'')))),
      world_ex\<lparr>trace :=
         [Print (Log_starting (str ''3mrAgent'') False (str ''general'')),
          NetRequest (str ''GET'') feed_url None, Sleep 1.2,
          NetRequest (str ''GET'') feed_url None, Sleep 2.4,
          NetRequest (str ''GET'') feed_url None],
        requests_made := 3, clock_reads := 1\<rparr>)"
    by blast
  note once_case = gateway_failure_ends_main [OF count_down rate0, where fuel = 0 and wstart = world_ex,
      THEN conjunct1, THEN mp, OF fetch_down]
  from once_case start_down have once: "main True 0 env_down config_ex world_ex =
     (Uncaught (RuntimeError (Some (HTTPError 500 (str ''unavailable'')))),
      world_ex\<lparr>trace :=
         [Print (Log_starting (str ''3mrAgent'') False (str ''general'')),
          NetRequest (str ''GET'') feed_url None, Sleep 1.2,
          NetRequest (str ''GET'') feed_url None, Sleep 2.4,
          NetRequest (str ''GET'') feed_url None],
        requests_made := 3, clock_reads := 1\<rparr>)"
    by blast
  have count: "count_last_hour env_comment_down world_replied_one = (1, world_counted)"
    by (rule count_example) (simp add: env_comment_down_def)
  have fetch: "get_submolt_posts env_comment_down config_ex (submolt config_ex) (fetch_limit config_ex)
      world_counted = (Inr (JList [JDict post_one, JDict post_two]), world_fetched)"
    by (rule fetch_example)
      (simp_all add: env_comment_down_def net_comment_down_def config_ex_def)
  have line: "stdout_encodes env_comment_down
      (line_text (Log_fetched (length ([JDict post_one] @ JDict post_two # [])) (submolt config_ex)))"
    by (rule fetched_line_example) (simp_all add: env_comment_down_def config_ex_def)
  have wet: "\<not> dry_run config_ex"
    by (simp add: config_ex_def)
  note comment_case = gateway_failure_ends_main [OF count rate1, where fuel = 1 and wstart = world_ex,
      THEN conjunct2, THEN conjunct1, THEN mp,
      OF conjI [OF fetch conjI [OF elements_example conjI [OF skips_example
        conjI [OF qualifies_example conjI [OF line conjI [OF wet comment_down_example]]]]]]]
  from comment_case have "main_loop (Suc 1) env_comment_down config_ex world_replied_one =
     (Uncaught (RuntimeError (Some (HTTPError 500 (str ''unavailable'')))),
      world_fetched\<lparr>trace :=
         [NetRequest (str ''GET'') feed_url None,
          Print (Log_fetched 2 (str ''general'')),
          comment_request config_ex (str ''p2'') reply_default, Sleep 1.2,
          comment_request config_ex (str ''p2'') reply_default, Sleep 2.4,
          comment_request config_ex (str ''p2'') reply_default],
        requests_made := 4\<rparr>)"
    by blast
  with loop once show ?thesis
    by (simp add: eval_nat_numeral)
qed

text \<open>
  Once both templates are used, scanning, a cycle and the loop reply to nothing.
\<close>

lemma no_reply_between_refl: "no_reply_between w w"
  by (simp add: no_reply_between_def)

lemma no_reply_between_trans:
  "no_reply_between w w1 \<Longrightarrow> no_reply_between w1 w2 \<Longrightarrow> no_reply_between w w2"
  by (simp add: no_reply_between_def)

lemma both_used_cong:
  "advice_fingerprints data' = advice_fingerprints data \<Longrightarrow> both_used E data' = both_used E data"
  by (simp add: both_used_def has_advice_def)

lemma scan_posts_silent:
  "both_used E (store w) \<Longrightarrow> \<exists>r. scan_posts E config ps w = (r, w)"
proof (induction ps)
  case Nil
  show ?case by simp
next
  case (Cons post ps)
  from Cons.prems have none: "\<And>p. decide_reply E p (store w) = None"
    by (rule decide_reply_both_used)
  show ?case
  proof (cases post)
    case (JDict p)
    then have "scan_posts E config (post # ps) w = scan_posts E config ps w"
      by (simp add: none Let_def)
    with Cons.IH [OF Cons.prems] show ?thesis by simp
  qed simp_all
qed

lemma print_line_silent:
  "print_line E line w = (r, w') \<Longrightarrow> store w' = store w \<and> no_reply_between w w'"
  using print_line_effects [of E line w r w'] by (simp add: no_reply_between_def)

lemma run_once_silent:
  assumes used: "both_used E (store w)" and run: "run_once E config w = (r, w')"
  shows "both_used E (store w') \<and> no_reply_between w w'"
proof -
  obtain n w1 where c: "count_last_hour E w = (n, w1)"
    by (cases "count_last_hour E w") auto
  from count_last_hour_effects [OF c] have w1: "no_reply_between w w1"
    and adv1: "advice_fingerprints (store w1) = advice_fingerprints (store w)"
    by (simp_all add: no_reply_between_def)
  have used1: "both_used E (store w1)"
    using used both_used_cong [OF adv1] by simp
  show ?thesis
  proof (cases "int n \<ge> max_comments_per_hour config")
    case True
    with run c have "print_line E Log_rate_limit w1 = (r, w')"
      by (simp add: run_once_def)
    from print_line_silent [OF this] w1 used1 show ?thesis
      by (auto intro: no_reply_between_trans)
  next
    case False
    obtain r2 w2 where g: "get_submolt_posts E config (submolt config) (fetch_limit config) w1 = (r2, w2)"
      by (cases "get_submolt_posts E config (submolt config) (fetch_limit config) w1") auto
    from get_submolt_posts_effects [OF g] have st2: "store w2 = store w1"
      and w2: "no_reply_between w1 w2"
      by (simp_all add: no_reply_between_def)
    have "store w' = store w2 \<and> no_reply_between w2 w'"
    proof (cases r2)
      case (Inl e)
      with run c g False have "w' = w2"
        by (simp add: run_once_def)
      then show ?thesis
        by (simp add: no_reply_between_refl)
    next
      case (Inr body)
      show ?thesis
      proof (cases "elements body")
        case (Inl e)
        with run c g False Inr have "w' = w2"
          by (simp add: run_once_def)
        then show ?thesis
          by (simp add: no_reply_between_refl)
      next
        case ps: (Inr ps)
        obtain r3 w3 where pr: "print_line E (Log_fetched (length ps) (submolt config)) w2 = (r3, w3)"
          by (cases "print_line E (Log_fetched (length ps) (submolt config)) w2") auto
        from print_line_silent [OF pr] have w3: "store w3 = store w2" "no_reply_between w2 w3"
          by simp_all
        have "both_used E (store w3)"
          using used1 by (simp only: w3(1) st2)
        from scan_posts_silent [OF this] obtain r4 where
          "scan_posts E config ps w3 = (r4, w3)"
          by blast
        with run c g False Inr ps pr have "w' = w3"
          by (cases r3) (simp_all add: run_once_def)
        with w3 show ?thesis by simp
      qed
    qed
    with st2 w2 w1 used1 show ?thesis
      by (auto intro: no_reply_between_trans)
  qed
qed

lemma main_loop_silent:
  "both_used E (store w) \<Longrightarrow>
   both_used E (store (snd (main_loop fuel E config w))) \<and>
   no_reply_between w (snd (main_loop fuel E config w))"
proof (induction fuel arbitrary: w)
  case 0
  then show ?case by (simp add: no_reply_between_refl)
next
  case (Suc fuel)
  obtain r w1 where run: "run_once E config w = (r, w1)"
    by (cases "run_once E config w") auto
  from run_once_silent [OF Suc.prems run] have used1: "both_used E (store w1)"
    and quiet1: "no_reply_between w w1"
    by simp_all
  show ?case
  proof (cases r)
    case (Inl e)
    with run used1 quiet1 show ?thesis by simp
  next
    case (Inr u)
    show ?thesis
    proof (cases "max_loop_seconds config < min_loop_seconds config")
      case True
      with run Inr used1 quiet1 show ?thesis
        by (simp add: randint_def)
    next
      case False
      define delay where "delay = min_loop_seconds config +
          rand E (rand_draws w1) mod (max_loop_seconds config - min_loop_seconds config + 1)"
      define w2 where "w2 = w1\<lparr>rand_draws := Suc (rand_draws w1)\<rparr>"
      have draw: "randint E (min_loop_seconds config) (max_loop_seconds config) w1 = (Inr delay, w2)"
        using False by (simp add: randint_def delay_def w2_def)
      have w2: "store w2 = store w1" "no_reply_between w1 w2"
        by (simp_all add: w2_def no_reply_between_def)
      obtain r3 w3 where pr: "print_line E (Log_sleeping delay) w2 = (r3, w3)"
        by (cases "print_line E (Log_sleeping delay) w2") auto
      from print_line_silent [OF pr] have w3: "store w3 = store w2" "no_reply_between w2 w3"
        by simp_all
      have used3: "both_used E (store w3)"
        using used1 by (simp only: w3(1) w2(1))
      have quiet3: "no_reply_between w w3"
        using quiet1 w2(2) w3(2) by (blast intro: no_reply_between_trans)
      show ?thesis
      proof (cases r3)
        case (Inl e)
        with run Inr draw pr have "main_loop (Suc fuel) E config w = (Uncaught e, w3)"
          by simp
        with used3 quiet3 show ?thesis by simp
      next
        case printed: (Inr u3)
        show ?thesis
        proof (cases "real_of_int delay < 0")
          case True
          with run Inr draw pr printed
          have "main_loop (Suc fuel) E config w = (Uncaught (ValueError Negative_sleep), w3)"
            by (simp add: sleep_def)
          with used3 quiet3 show ?thesis by simp
        next
          case nonneg: False
          define w4 where "w4 = emit (Sleep (real_of_int delay)) w3"
          have w4: "store w4 = store w3" "no_reply_between w3 w4"
            by (simp_all add: w4_def emit_def no_reply_between_def is_comment_request_def)
          have loop: "main_loop (Suc fuel) E config w = main_loop fuel E config w4"
            using run Inr draw pr printed nonneg by (simp add: sleep_def w4_def)
          have "both_used E (store w4)"
            using used3 by (simp only: w4(1))
          from Suc.IH [OF this] have "both_used E (store (snd (main_loop fuel E config w4)))"
            and "no_reply_between w4 (snd (main_loop fuel E config w4))"
            by simp_all
          with quiet3 w4 show ?thesis
            unfolding loop by (auto intro: no_reply_between_trans)
        qed
      qed
    qed
  qed
qed

text \<open>
  Claim C10. A candidate of \<open>decide_reply\<close> is one of the two templates; once the
  fingerprints of both are in the document, \<open>decide_reply\<close> returns no candidate for
  any post, and from a world with such a document the loop of \<open>main\<close>, however long
  it runs, keeps both fingerprints, marks no post replied, records no fingerprint and
  sends no comment request.
\<close>

theorem two_templates_then_silence:
  "(decide_reply E post memory = Some r \<longrightarrow> r = reply_default \<or> r = reply_sourcing) \<and>
   (both_used E memory \<longrightarrow> decide_reply E post memory = None) \<and>
   (both_used E (store w) \<longrightarrow>
      both_used E (store (snd (main_loop fuel E config w))) \<and>
      no_reply_between w (snd (main_loop fuel E config w)))"
  using decide_reply_Some [of E post memory r] select_reply_cases [where E = E and c = "combined_text E post"]
    decide_reply_both_used [where E = E and memory = memory and post = post] main_loop_silent [where E = E and w = w and fuel = fuel and config = config]
  by auto

text \<open>
  Claim C10 on the second post of the example and a document with both fingerprints.
\<close>

theorem two_templates_then_silence_witness:
  "decide_reply env_feed post_two empty_document = Some reply_default \<and>
   decide_reply env_feed post_two doc_both = None \<and>
   both_used env_feed (store (snd (main_loop 2 env_feed config_ex world_both))) \<and>
   no_reply_between world_both (snd (main_loop 2 env_feed config_ex world_both))"
proof -
  have first: "decide_reply env_feed post_two empty_document = Some reply_default"
    by (rule decide_example) (simp add: empty_document_def)
  have used: "both_used env_feed doc_both" "both_used env_feed (store world_both)"
    by (simp_all add: both_used_def has_advice_def doc_both_def world_both_def)
  from first used
    two_templates_then_silence [of env_feed post_two empty_document reply_default world_ex 0 config_ex]
    two_templates_then_silence [of env_feed post_two doc_both reply_default world_both 2 config_ex]
  show ?thesis
    by simp
qed

end
